theory Spec2Isabelle
  imports Complex_Main "HOL-Library.AList"
begin

section \<open>Data model (src/types/index.ts)\<close>

text \<open>
  A JavaScript \<^verbatim>\<open>number\<close>. Every finite double is a rational; \<open>+0\<close> and \<open>-0\<close> are
  both \<open>Finite 0\<close>, which is what the strict equality \<^verbatim>\<open>===\<close> sees. The elements read
  from a \<^verbatim>\<open>Float32Array\<close> are numbers as well.
\<close>

datatype number = Finite rat | PosInfinity | NegInfinity | NaN

text \<open>\<^verbatim>\<open>a === b\<close> on two numbers: \<^verbatim>\<open>NaN === NaN\<close> is false.\<close>

definition strict_eq :: "number \<Rightarrow> number \<Rightarrow> bool" where
  "strict_eq a b = (if a = NaN then False else if b = NaN then False else a = b)"

text \<open>\<^verbatim>\<open>UniformType\<close> without \<^verbatim>\<open>'texture'\<close>, which is the tag of the other variant.\<close>

datatype NumericType =
  TFloat | TVec2 | TVec3 | TVec4 | TInt | TIVec2 | TIVec3 | TIVec4 | TMat3 | TMat4

datatype TextureWrap = REPEAT | CLAMP_TO_EDGE | MIRRORED_REPEAT

datatype TextureFilter =
  NEAREST | LINEAR | NEAREST_MIPMAP_NEAREST | LINEAR_MIPMAP_NEAREST
  | NEAREST_MIPMAP_LINEAR | LINEAR_MIPMAP_LINEAR

text \<open>\<^verbatim>\<open>TextureOptions\<close>: every field is optional; \<open>None\<close> is \<^verbatim>\<open>undefined\<close>.\<close>

record TextureOptions =
  wrapS :: "TextureWrap option"
  wrapT :: "TextureWrap option"
  minFilter :: "TextureFilter option"
  magFilter :: "TextureFilter option"
  flipY :: "bool option"

text \<open>
  A texture source is a DOM object; the number is the identity of the object, so that
  equality of two values of this type is the reference equality of the source.
\<close>

datatype TextureSource =
  HTMLImageElement nat | HTMLCanvasElement nat | HTMLVideoElement nat | ImageBitmap nat

text \<open>\<^verbatim>\<open>value: number | number[] | Float32Array\<close> of a \<^verbatim>\<open>NumericUniform\<close>.\<close>

datatype NumericValue =
  Number number | NumberArray "number list" | Float32Array "number list"

datatype UniformValue =
  TextureUniform TextureSource "TextureOptions option"
  | NumericUniform NumericType NumericValue

text \<open>
  \<^verbatim>\<open>Uniforms = Record<string, UniformValue>\<close>: the own properties of the object in
  enumeration order. \<^verbatim>\<open>obj[key]\<close> is \<open>map_of\<close>, \<^verbatim>\<open>key in obj\<close> is \<open>map_of obj key \<noteq> None\<close>,
  \<^verbatim>\<open>obj[key] = v\<close> is \<open>AList.update\<close> (a new key goes to the end).
\<close>

type_synonym Uniforms = "(string \<times> UniformValue) list"

text \<open>A \<^verbatim>\<open>Set<string>\<close> in insertion order; \<^verbatim>\<open>add\<close> of a member changes nothing.\<close>

definition set_add :: "string \<Rightarrow> string list \<Rightarrow> string list" where
  "set_add key s = (if key \<in> set s then s else s @ [key])"

definition new_Set :: "string list \<Rightarrow> string list" where
  "new_Set keys = fold set_add keys []"

section \<open>Uniform diff engine (src/utils/uniforms.ts)\<close>

text \<open>
  \<^verbatim>\<open>uniformsEqual\<close>. The test \<^verbatim>\<open>aOpts === bOpts\<close> compares references: in this model
  it succeeds when both are \<^verbatim>\<open>undefined\<close>; for one shared object the comparison of the
  fields that follows gives the same answer, the fields being enum members and booleans.
\<close>

definition optionsEqual :: "TextureOptions option \<Rightarrow> TextureOptions option \<Rightarrow> bool" where
  "optionsEqual aOpts bOpts =
     (case (aOpts, bOpts) of
        (None, None) \<Rightarrow> True
      | (None, Some b) \<Rightarrow> False
      | (Some a, None) \<Rightarrow> False
      | (Some a, Some b) \<Rightarrow>
          wrapS a = wrapS b \<and> wrapT a = wrapT b \<and> minFilter a = minFilter b
          \<and> magFilter a = magFilter b \<and> flipY a = flipY b)"

definition every_eq :: "number list \<Rightarrow> number list \<Rightarrow> bool" where
  "every_eq aVal bVal =
     (if length aVal \<noteq> length bVal then False else list_all2 strict_eq aVal bVal)"

fun uniformsEqual :: "UniformValue \<Rightarrow> UniformValue \<Rightarrow> bool" where
  "uniformsEqual (TextureUniform av aOpts) (TextureUniform bv bOpts) =
     (if av \<noteq> bv then False else optionsEqual aOpts bOpts)"
| "uniformsEqual (TextureUniform av aOpts) (NumericUniform tb bVal) = False"
| "uniformsEqual (NumericUniform ta aVal) (TextureUniform bv bOpts) = False"
| "uniformsEqual (NumericUniform ta aVal) (NumericUniform tb bVal) =
     (if ta \<noteq> tb then False
      else case (aVal, bVal) of
        (Number x, Number y) \<Rightarrow> strict_eq x y
      | (NumberArray xs, NumberArray ys) \<Rightarrow> every_eq xs ys
      | (Float32Array xs, Float32Array ys) \<Rightarrow> every_eq xs ys
      | _ \<Rightarrow> False)"

text \<open>
  \<^verbatim>\<open>getChangedUniforms\<close>: \<open>None\<close> is \<^verbatim>\<open>null\<close>. The loop \<^verbatim>\<open>for (const key in current)\<close>
  runs over the keys; \<^verbatim>\<open>current[key]\<close> is always there, its missing branch is never taken.
\<close>

definition changed_step :: "Uniforms \<Rightarrow> Uniforms \<Rightarrow> string \<Rightarrow> string list \<Rightarrow> string list" where
  "changed_step current previous key changed =
     (case map_of previous key of
        None \<Rightarrow> set_add key changed
      | Some b \<Rightarrow>
          (case map_of current key of
             None \<Rightarrow> set_add key changed
           | Some a \<Rightarrow> if uniformsEqual a b then changed else set_add key changed))"

definition getChangedUniforms :: "Uniforms \<Rightarrow> Uniforms option \<Rightarrow> string list" where
  "getChangedUniforms current previous =
     (case previous of
        None \<Rightarrow> new_Set (map fst current)
      | Some prev \<Rightarrow> fold (changed_step current prev) (map fst current) [])"

fun cloneUniformValue :: "UniformValue \<Rightarrow> UniformValue" where
  "cloneUniformValue (TextureUniform v opts) =
     TextureUniform v
       (case opts of
          None \<Rightarrow> None
        | Some u \<Rightarrow> Some \<lparr>wrapS = wrapS u, wrapT = wrapT u, minFilter = minFilter u,
                          magFilter = magFilter u, flipY = flipY u\<rparr>)"
| "cloneUniformValue (NumericUniform t (Number n)) = NumericUniform t (Number n)"
| "cloneUniformValue (NumericUniform t (Float32Array xs)) =
     NumericUniform t (Float32Array (map (\<lambda>x. x) xs))"
| "cloneUniformValue (NumericUniform t (NumberArray xs)) =
     NumericUniform t (NumberArray (map (\<lambda>x. x) xs))"

definition clone_step :: "Uniforms \<Rightarrow> string \<Rightarrow> Uniforms \<Rightarrow> Uniforms" where
  "clone_step uniforms key cloned =
     (case map_of uniforms key of
        None \<Rightarrow> cloned
      | Some u \<Rightarrow> AList.update key (cloneUniformValue u) cloned)"

definition cloneUniforms :: "Uniforms \<Rightarrow> Uniforms" where
  "cloneUniforms uniforms = fold (clone_step uniforms) (map fst uniforms) []"

subsection \<open>The changed relation in the words of the specification\<close>

text \<open>
  The specification of the diff: a name is changed iff it is a key of \<open>current\<close> and is
  absent from \<open>previous\<close>, or its kind differs, or, for a numeric uniform, some element of
  the value differs under exact equality, or, for a texture, the source reference differs
  or some field of the options differs (one side undefined and the other defined counts).
  With no \<open>previous\<close>, every key of \<open>current\<close> is changed.
\<close>

fun elements :: "NumericValue \<Rightarrow> number list" where
  "elements (Number n) = [n]"
| "elements (NumberArray xs) = xs"
| "elements (Float32Array xs) = xs"

definition spec_element_differs :: "NumericValue \<Rightarrow> NumericValue \<Rightarrow> bool" where
  "spec_element_differs a b = (\<not> list_all2 strict_eq (elements a) (elements b))"

fun spec_options_differ :: "TextureOptions option \<Rightarrow> TextureOptions option \<Rightarrow> bool" where
  "spec_options_differ None None = False"
| "spec_options_differ None (Some b) = True"
| "spec_options_differ (Some a) None = True"
| "spec_options_differ (Some a) (Some b) =
     (wrapS a \<noteq> wrapS b \<or> wrapT a \<noteq> wrapT b \<or> minFilter a \<noteq> minFilter b
      \<or> magFilter a \<noteq> magFilter b \<or> flipY a \<noteq> flipY b)"

fun spec_unequal :: "UniformValue \<Rightarrow> UniformValue \<Rightarrow> bool" where
  "spec_unequal (TextureUniform av aOpts) (TextureUniform bv bOpts) =
     (av \<noteq> bv \<or> spec_options_differ aOpts bOpts)"
| "spec_unequal (NumericUniform ta aVal) (NumericUniform tb bVal) =
     (ta \<noteq> tb \<or> spec_element_differs aVal bVal)"
| "spec_unequal (TextureUniform av aOpts) (NumericUniform tb bVal) = True"
| "spec_unequal (NumericUniform ta aVal) (TextureUniform bv bOpts) = True"

definition spec_changed :: "Uniforms \<Rightarrow> Uniforms option \<Rightarrow> string \<Rightarrow> bool" where
  "spec_changed current previous name =
     (case map_of current name of
        None \<Rightarrow> False
      | Some a \<Rightarrow>
          (case previous of
             None \<Rightarrow> True
           | Some prev \<Rightarrow>
               (case map_of prev name of None \<Rightarrow> True | Some b \<Rightarrow> spec_unequal a b)))"

text \<open>
  The same relation with the one case that the code adds: two numeric values of one kind
  held in different representations (a number, a plain array, a \<^verbatim>\<open>Float32Array\<close>) are
  unequal whatever their elements are.
\<close>

datatype representation = PlainNumber | PlainArray | TypedArray

fun representation_of :: "NumericValue \<Rightarrow> representation" where
  "representation_of (Number n) = PlainNumber"
| "representation_of (NumberArray xs) = PlainArray"
| "representation_of (Float32Array xs) = TypedArray"

fun value_unequal :: "UniformValue \<Rightarrow> UniformValue \<Rightarrow> bool" where
  "value_unequal (TextureUniform av aOpts) (TextureUniform bv bOpts) =
     (av \<noteq> bv \<or> spec_options_differ aOpts bOpts)"
| "value_unequal (NumericUniform ta aVal) (NumericUniform tb bVal) =
     (ta \<noteq> tb \<or> representation_of aVal \<noteq> representation_of bVal
      \<or> spec_element_differs aVal bVal)"
| "value_unequal (TextureUniform av aOpts) (NumericUniform tb bVal) = True"
| "value_unequal (NumericUniform ta aVal) (TextureUniform bv bOpts) = True"

definition value_changed :: "Uniforms \<Rightarrow> Uniforms option \<Rightarrow> string \<Rightarrow> bool" where
  "value_changed current previous name =
     (case map_of current name of
        None \<Rightarrow> False
      | Some a \<Rightarrow>
          (case previous of
             None \<Rightarrow> True
           | Some prev \<Rightarrow>
               (case map_of prev name of None \<Rightarrow> True | Some b \<Rightarrow> value_unequal a b)))"

text \<open>No numeric value of the snapshot holds a \<^verbatim>\<open>NaN\<close>.\<close>

fun nan_free_value :: "UniformValue \<Rightarrow> bool" where
  "nan_free_value (TextureUniform v opts) = True"
| "nan_free_value (NumericUniform t v) = (NaN \<notin> set (elements v))"

definition nan_free :: "Uniforms \<Rightarrow> bool" where
  "nan_free uniforms = list_all (\<lambda>entry. nan_free_value (snd entry)) uniforms"

section \<open>Arithmetic on numbers\<close>

text \<open>
  A number is an IEEE 754 double, and the result of \<^verbatim>\<open>a * b\<close> or \<^verbatim>\<open>a - b\<close> is the exact
  result rounded to the nearest double, ties to the even significand. \<open>binade a\<close> is
  the exponent of the doubles around \<open>a\<close>: the least \<open>e\<close> from -1022 (where the subnormal
  numbers are) to 1023 with \<open>a < 2^(e + 1)\<close>; there the doubles are 2^(e - 52) apart.
  There is none when \<open>a\<close> is 2^1024 or more, which rounds to infinity. The sign of zero
  is not kept.
\<close>

definition pow2 :: "int \<Rightarrow> rat" where
  "pow2 e = (if 0 \<le> e then 2 ^ nat e else 1 / 2 ^ nat (- e))"

definition round_half_even :: "rat \<Rightarrow> int" where
  "round_half_even x =
     (let n = \<lfloor>x\<rfloor>; d = x - of_int n
      in if d < 1 / 2 then n else if 1 / 2 < d then n + 1 else if even n then n else n + 1)"

definition binade :: "rat \<Rightarrow> int option" where
  "binade a = find (\<lambda>e. a < pow2 (e + 1)) [-1022..1023]"

definition infinity :: "bool \<Rightarrow> number" where
  "infinity negative = (if negative then NegInfinity else PosInfinity)"

definition round_double :: "rat \<Rightarrow> number" where
  "round_double r =
     (if r = 0 then Finite 0
      else case binade \<bar>r\<bar> of
        None \<Rightarrow> infinity (r < 0)
      | Some e \<Rightarrow>
          (let ulp = pow2 (e - 52);
               v = of_int (round_half_even (\<bar>r\<bar> / ulp)) * ulp
           in if pow2 1024 \<le> v then infinity (r < 0)
              else Finite (if r < 0 then - v else v)))"

text \<open>\<^verbatim>\<open>a * b\<close>: an infinity times zero is \<^verbatim>\<open>NaN\<close>.\<close>

fun double_times :: "number \<Rightarrow> number \<Rightarrow> number" where
  "double_times NaN b = NaN"
| "double_times a NaN = NaN"
| "double_times (Finite a) (Finite b) = round_double (a * b)"
| "double_times (Finite a) PosInfinity = (if a = 0 then NaN else infinity (a < 0))"
| "double_times (Finite a) NegInfinity = (if a = 0 then NaN else infinity (0 < a))"
| "double_times PosInfinity (Finite b) = (if b = 0 then NaN else infinity (b < 0))"
| "double_times NegInfinity (Finite b) = (if b = 0 then NaN else infinity (0 < b))"
| "double_times PosInfinity PosInfinity = PosInfinity"
| "double_times PosInfinity NegInfinity = NegInfinity"
| "double_times NegInfinity PosInfinity = NegInfinity"
| "double_times NegInfinity NegInfinity = PosInfinity"

text \<open>\<^verbatim>\<open>a - b\<close> of two finite numbers.\<close>

definition double_minus :: "rat \<Rightarrow> rat \<Rightarrow> number" where
  "double_minus a b = round_double (a - b)"

text \<open>\<^verbatim>\<open>Math.floor\<close>: the floor of a double is a double.\<close>

fun Math_floor :: "number \<Rightarrow> number" where
  "Math_floor (Finite r) = Finite (of_int \<lfloor>r\<rfloor>)"
| "Math_floor PosInfinity = PosInfinity"
| "Math_floor NegInfinity = NegInfinity"
| "Math_floor NaN = NaN"

text \<open>The literal \<^verbatim>\<open>0.001\<close>: the double nearest to one thousandth.\<close>

definition literal_0_001 :: number where
  "literal_0_001 = Finite (1152921504606847 / 2 ^ 60)"

section \<open>The GL context and the texture utilities (src/utils/textures.ts)\<close>

text \<open>
  The calls made on the \<^verbatim>\<open>WebGLRenderingContext\<close>, in the order they are issued. A texture
  and a uniform location are handles, written as numbers. The argument of a uniform call
  is the JavaScript value handed over, which may be \<^verbatim>\<open>undefined\<close>; the arguments of
  \<^verbatim>\<open>viewport\<close> are the numbers handed over.
\<close>

datatype pname = TEXTURE_WRAP_S | TEXTURE_WRAP_T | TEXTURE_MIN_FILTER | TEXTURE_MAG_FILTER

datatype param = Wrap TextureWrap | Filter TextureFilter

datatype js_arg = Undefined | Arg NumericValue

text \<open>
  The array handed to \<^verbatim>\<open>uniformMatrix3fv\<close> and \<^verbatim>\<open>uniformMatrix4fv\<close>: the
  \<^verbatim>\<open>Float32Array\<close> of the uniform itself, \<^verbatim>\<open>new Float32Array(v)\<close> of a plain array, or
  \<^verbatim>\<open>new Float32Array(n)\<close> of a number, which is \<open>n\<close> zeros.
\<close>

datatype matrix_arg =
  Float32Given "number list" | Float32FromArray "number list" | Float32Zeros nat

datatype gl_call =
  ActiveTexture nat
  | BindTexture nat
  | TexParameteri pname param
  | PixelStorei_UNPACK_FLIP_Y bool
  | TexImage2D TextureSource
  | GenerateMipmap
  | DeleteTexture nat
  | ClearColor
  | Clear
  | Uniform1f nat js_arg
  | Uniform2f nat js_arg js_arg
  | Uniform3f nat js_arg js_arg js_arg
  | Uniform4f nat js_arg js_arg js_arg js_arg
  | Uniform1i nat js_arg
  | Uniform2i nat js_arg js_arg
  | Uniform3i nat js_arg js_arg js_arg
  | Uniform4i nat js_arg js_arg js_arg js_arg
  | UniformMatrix3fv nat matrix_arg
  | UniformMatrix4fv nat matrix_arg
  | Viewport number number number number
  | DrawArrays

text \<open>
  The context: the limit it reports for \<^verbatim>\<open>MAX_COMBINED_TEXTURE_IMAGE_UNITS\<close>, whether it is
  lost (\<^verbatim>\<open>gl.createTexture()\<close> then returns \<^verbatim>\<open>null\<close>), the next fresh texture handle and
  the calls issued so far. The calls themselves do not throw.
\<close>

record WebGLRenderingContext =
  MAX_COMBINED_TEXTURE_IMAGE_UNITS :: nat
  contextLost :: bool
  nextTexture :: nat
  calls :: "gl_call list"

definition issue :: "gl_call list \<Rightarrow> WebGLRenderingContext \<Rightarrow> WebGLRenderingContext" where
  "issue cs gl = gl\<lparr>calls := calls gl @ cs\<rparr>"

text \<open>The exceptions thrown by the code, and the lines written to the console.\<close>

datatype error =
  NoAvailableTextureUnits nat
  | FailedToCreateTexture
  | TextureUnitMustBeProvided
  | TypeError
  | RangeError

datatype console_entry =
  WarnSourceNotReady string
  | ErrorFailedToCreateTexture string error
  | ErrorFailedToUpdateTexture string error
  | ErrorFailedToSetUniform string error

definition mipmap_filters :: "TextureFilter list" where
  "mipmap_filters =
     [NEAREST_MIPMAP_NEAREST, LINEAR_MIPMAP_NEAREST, NEAREST_MIPMAP_LINEAR,
      LINEAR_MIPMAP_LINEAR]"

definition or_default :: "'a option \<Rightarrow> 'a \<Rightarrow> 'a" where
  "or_default field d = (case field of None \<Rightarrow> d | Some v \<Rightarrow> v)"

definition empty_options :: TextureOptions where
  "empty_options =
     \<lparr>wrapS = None, wrapT = None, minFilter = None, magFilter = None, flipY = None\<rparr>"

text \<open>\<^verbatim>\<open>createTexture\<close>: the new texture and the context, or the exception.\<close>

definition createTexture ::
  "WebGLRenderingContext \<Rightarrow> TextureSource \<Rightarrow> TextureOptions option \<Rightarrow> nat
   \<Rightarrow> error + (nat \<times> WebGLRenderingContext)" where
  "createTexture gl source opts unit =
     (if contextLost gl then Inl FailedToCreateTexture
      else
        let texture = nextTexture gl;
            options = or_default opts empty_options;
            wrapS' = or_default (wrapS options) CLAMP_TO_EDGE;
            wrapT' = or_default (wrapT options) CLAMP_TO_EDGE;
            minFilter' = or_default (minFilter options) LINEAR;
            magFilter' = or_default (magFilter options) LINEAR;
            flipY' = or_default (flipY options) True
        in Inr (texture,
             issue
               ([ActiveTexture unit, BindTexture texture,
                 TexParameteri TEXTURE_WRAP_S (Wrap wrapS'),
                 TexParameteri TEXTURE_WRAP_T (Wrap wrapT'),
                 TexParameteri TEXTURE_MIN_FILTER (Filter minFilter'),
                 TexParameteri TEXTURE_MAG_FILTER (Filter magFilter'),
                 PixelStorei_UNPACK_FLIP_Y flipY',
                 TexImage2D source]
                @ (if minFilter' \<in> set mipmap_filters then [GenerateMipmap] else []))
               (gl\<lparr>nextTexture := Suc texture\<rparr>)))"

text \<open>
  \<^verbatim>\<open>updateTexture\<close>: the texture is bound on its unit, only the fields that are present
  are applied again, and the source is uploaded. \<open>updateTexture_calls\<close> are the calls it
  makes.
\<close>

definition when_set :: "'a option \<Rightarrow> ('a \<Rightarrow> gl_call) \<Rightarrow> gl_call list" where
  "when_set field call = (case field of None \<Rightarrow> [] | Some v \<Rightarrow> [call v])"

definition updateTexture_calls ::
  "nat \<Rightarrow> TextureSource \<Rightarrow> TextureOptions option \<Rightarrow> nat \<Rightarrow> gl_call list" where
  "updateTexture_calls texture source opts unit =
     (let options = or_default opts empty_options
      in [ActiveTexture unit, BindTexture texture]
         @ when_set (wrapS options) (\<lambda>v. TexParameteri TEXTURE_WRAP_S (Wrap v))
         @ when_set (wrapT options) (\<lambda>v. TexParameteri TEXTURE_WRAP_T (Wrap v))
         @ when_set (minFilter options) (\<lambda>v. TexParameteri TEXTURE_MIN_FILTER (Filter v))
         @ when_set (magFilter options) (\<lambda>v. TexParameteri TEXTURE_MAG_FILTER (Filter v))
         @ when_set (flipY options) PixelStorei_UNPACK_FLIP_Y
         @ [TexImage2D source]
         @ (case minFilter options of
              None \<Rightarrow> []
            | Some f \<Rightarrow> if f \<in> set mipmap_filters then [GenerateMipmap] else []))"

definition updateTexture ::
  "WebGLRenderingContext \<Rightarrow> nat \<Rightarrow> TextureSource \<Rightarrow> TextureOptions option \<Rightarrow> nat
   \<Rightarrow> WebGLRenderingContext" where
  "updateTexture gl texture source opts unit =
     issue (updateTexture_calls texture source opts unit) gl"

definition deleteTexture :: "WebGLRenderingContext \<Rightarrow> nat \<Rightarrow> WebGLRenderingContext" where
  "deleteTexture gl texture = issue [DeleteTexture texture] gl"

text \<open>
  The state of the DOM objects that \<^verbatim>\<open>isTextureSourceReady\<close> reads, by object identity.
  \<^verbatim>\<open>HAVE_CURRENT_DATA\<close> is 2.
\<close>

record dom =
  complete :: "nat \<Rightarrow> bool"
  naturalWidth :: "nat \<Rightarrow> nat"
  readyState :: "nat \<Rightarrow> nat"

definition HAVE_CURRENT_DATA :: nat where
  "HAVE_CURRENT_DATA = 2"

fun isTextureSourceReady :: "dom \<Rightarrow> TextureSource \<Rightarrow> bool" where
  "isTextureSourceReady d (HTMLImageElement i) = (complete d i \<and> naturalWidth d i > 0)"
| "isTextureSourceReady d (HTMLVideoElement i) = (readyState d i \<ge> HAVE_CURRENT_DATA)"
| "isTextureSourceReady d (HTMLCanvasElement i) = True"
| "isTextureSourceReady d (ImageBitmap i) = True"

section \<open>Texture resource manager (src/hooks/useTextures.ts)\<close>

record TextureInfo =
  texture :: nat
  source :: TextureSource
  unit :: nat

text \<open>
  The two maps held by the hook (a \<^verbatim>\<open>Map\<close> in insertion order: \<^verbatim>\<open>set\<close> is
  \<open>AList.update\<close>, \<^verbatim>\<open>delete\<close> is \<open>AList.delete\<close>, \<^verbatim>\<open>get\<close> is \<open>map_of\<close>), and the console.
\<close>

record textures_state =
  textures :: "(string \<times> TextureInfo) list"
  textureUnits :: "(string \<times> nat) list"
  console :: "console_entry list"

definition log :: "console_entry \<Rightarrow> textures_state \<Rightarrow> textures_state" where
  "log entry st = st\<lparr>console := console st @ [entry]\<rparr>"

text \<open>
  \<^verbatim>\<open>getAvailableUnit\<close>: the first \<open>i\<close> of \<open>0, 1, ..., maxUnits - 1\<close> that is not the
  value of an entry of \<open>textureUnits\<close>; the exception when there is none.
\<close>

definition getAvailableUnit ::
  "WebGLRenderingContext \<Rightarrow> (string \<times> nat) list \<Rightarrow> error + nat" where
  "getAvailableUnit gl units =
     (let maxUnits = MAX_COMBINED_TEXTURE_IMAGE_UNITS gl;
          usedUnits = map snd units
      in case find (\<lambda>i. i \<notin> set usedUnits) [0..<maxUnits] of
           Some i \<Rightarrow> Inr i
         | None \<Rightarrow> Inl (NoAvailableTextureUnits maxUnits))"

text \<open>
  The memoised \<^verbatim>\<open>textureUniforms\<close>: the texture uniforms of the snapshot, in order, as a
  \<^verbatim>\<open>Map\<close>; \<^verbatim>\<open>null\<close> when the snapshot is undefined or holds no texture.
\<close>

type_synonym texture_uniforms = "(string \<times> TextureSource \<times> TextureOptions option) list"

fun texture_entries :: "Uniforms \<Rightarrow> texture_uniforms \<Rightarrow> texture_uniforms" where
  "texture_entries [] m = m"
| "texture_entries ((name, TextureUniform v opts) # rest) m =
     texture_entries rest (AList.update name (v, opts) m)"
| "texture_entries ((name, NumericUniform t v) # rest) m = texture_entries rest m"

definition textureUniforms :: "Uniforms option \<Rightarrow> texture_uniforms option" where
  "textureUniforms uniforms =
     (case uniforms of
        None \<Rightarrow> None
      | Some us \<Rightarrow>
          (let m = texture_entries us [] in if length m > 0 then Some m else None))"

text \<open>The loop that removes the textures that are no longer in the uniforms.\<close>

fun remove_textures ::
  "texture_uniforms \<Rightarrow> (string \<times> TextureInfo) list
   \<Rightarrow> WebGLRenderingContext \<times> textures_state \<Rightarrow> WebGLRenderingContext \<times> textures_state" where
  "remove_textures tus [] (gl, st) = (gl, st)"
| "remove_textures tus ((name, info) # rest) (gl, st) =
     (if map_of tus name = None
      then remove_textures tus rest
             (deleteTexture gl (texture info),
              st\<lparr>textures := AList.delete name (textures st),
                 textureUnits := AList.delete name (textureUnits st)\<rparr>)
      else remove_textures tus rest (gl, st))"

text \<open>
  One round of the loop that creates or updates: the readiness gate, the update of an
  existing texture, or the creation inside its \<^verbatim>\<open>try\<close>, whose \<^verbatim>\<open>catch\<close> logs the exception
  and lets the loop go on.
\<close>

definition create_or_update ::
  "dom \<Rightarrow> string \<Rightarrow> TextureSource \<times> TextureOptions option
   \<Rightarrow> WebGLRenderingContext \<times> textures_state \<Rightarrow> WebGLRenderingContext \<times> textures_state" where
  "create_or_update d name uniform s =
     (case (uniform, s) of ((v, opts), (gl, st)) \<Rightarrow>
        (if \<not> isTextureSourceReady d v then (gl, log (WarnSourceNotReady name) st)
         else
           (case map_of (textures st) name of
              Some existingInfo \<Rightarrow>
                (updateTexture gl (texture existingInfo) v opts (unit existingInfo),
                 st\<lparr>textures := AList.update name (existingInfo\<lparr>source := v\<rparr>) (textures st)\<rparr>)
            | None \<Rightarrow>
                (case getAvailableUnit gl (textureUnits st) of
                   Inl e \<Rightarrow> (gl, log (ErrorFailedToCreateTexture name e) st)
                 | Inr u \<Rightarrow>
                     (case createTexture gl v opts u of
                        Inl e \<Rightarrow> (gl, log (ErrorFailedToCreateTexture name e) st)
                      | Inr (tex, gl') \<Rightarrow>
                          (gl',
                           st\<lparr>textures :=
                                 AList.update name \<lparr>texture = tex, source = v, unit = u\<rparr>
                                   (textures st),
                              textureUnits := AList.update name u (textureUnits st)\<rparr>))))))"

fun create_or_update_all ::
  "dom \<Rightarrow> texture_uniforms
   \<Rightarrow> WebGLRenderingContext \<times> textures_state \<Rightarrow> WebGLRenderingContext \<times> textures_state" where
  "create_or_update_all d [] s = s"
| "create_or_update_all d ((name, uniform) # rest) s =
     create_or_update_all d rest (create_or_update d name uniform s)"

text \<open>
  The effect of \<^verbatim>\<open>useTextures\<close>: nothing without a context or without texture uniforms,
  else the removal loop over the current textures and then the creation loop.
\<close>

definition useTextures_effect ::
  "dom \<Rightarrow> WebGLRenderingContext option \<Rightarrow> texture_uniforms option \<Rightarrow> textures_state
   \<Rightarrow> WebGLRenderingContext option \<times> textures_state" where
  "useTextures_effect d gl tus st =
     (case (gl, tus) of
        (Some g, Some m) \<Rightarrow>
          (case create_or_update_all d m (remove_textures m (textures st) (g, st)) of
             (g', st') \<Rightarrow> (Some g', st'))
      | _ \<Rightarrow> (gl, st))"

definition useTextures ::
  "dom \<Rightarrow> WebGLRenderingContext option \<Rightarrow> Uniforms option \<Rightarrow> textures_state
   \<Rightarrow> WebGLRenderingContext option \<times> textures_state" where
  "useTextures d gl uniforms st = useTextures_effect d gl (textureUniforms uniforms) st"

section \<open>Applying a uniform (src/utils/uniforms.ts, \<^verbatim>\<open>setUniform\<close>)\<close>

text \<open>\<^verbatim>\<open>v[i]\<close> for \<^verbatim>\<open>v = value as number[]\<close>: \<^verbatim>\<open>undefined\<close> out of range and on a number.\<close>

fun at_index :: "NumericValue \<Rightarrow> nat \<Rightarrow> js_arg" where
  "at_index (Number n) i = Undefined"
| "at_index (NumberArray xs) i = (if i < length xs then Arg (Number (xs ! i)) else Undefined)"
| "at_index (Float32Array xs) i = (if i < length xs then Arg (Number (xs ! i)) else Undefined)"

text \<open>
  \<^verbatim>\<open>v instanceof Float32Array ? v : new Float32Array(v)\<close>. On a number the constructor
  takes a length: \<^verbatim>\<open>NaN\<close> is 0, a fraction is truncated, and a length below 0 or above
  \<open>2^53 - 1\<close> is a \<^verbatim>\<open>RangeError\<close>. An engine that cannot allocate a large array throws
  the same \<^verbatim>\<open>RangeError\<close>; here the allocation succeeds.
\<close>

definition trunc :: "rat \<Rightarrow> int" where
  "trunc r = (if r < 0 then - \<lfloor>- r\<rfloor> else \<lfloor>r\<rfloor>)"

fun to_Float32Array :: "NumericValue \<Rightarrow> error + matrix_arg" where
  "to_Float32Array (Float32Array xs) = Inr (Float32Given xs)"
| "to_Float32Array (NumberArray xs) = Inr (Float32FromArray xs)"
| "to_Float32Array (Number NaN) = Inr (Float32Zeros 0)"
| "to_Float32Array (Number PosInfinity) = Inl RangeError"
| "to_Float32Array (Number NegInfinity) = Inl RangeError"
| "to_Float32Array (Number (Finite r)) =
     (if trunc r < 0 \<or> trunc r > 2 ^ 53 - 1 then Inl RangeError
      else Inr (Float32Zeros (nat (trunc r))))"

fun setNumeric :: "nat \<Rightarrow> NumericType \<Rightarrow> NumericValue \<Rightarrow> error + gl_call" where
  "setNumeric location TFloat v = Inr (Uniform1f location (Arg v))"
| "setNumeric location TVec2 v = Inr (Uniform2f location (at_index v 0) (at_index v 1))"
| "setNumeric location TVec3 v =
     Inr (Uniform3f location (at_index v 0) (at_index v 1) (at_index v 2))"
| "setNumeric location TVec4 v =
     Inr (Uniform4f location (at_index v 0) (at_index v 1) (at_index v 2) (at_index v 3))"
| "setNumeric location TInt v = Inr (Uniform1i location (Arg v))"
| "setNumeric location TIVec2 v = Inr (Uniform2i location (at_index v 0) (at_index v 1))"
| "setNumeric location TIVec3 v =
     Inr (Uniform3i location (at_index v 0) (at_index v 1) (at_index v 2))"
| "setNumeric location TIVec4 v =
     Inr (Uniform4i location (at_index v 0) (at_index v 1) (at_index v 2) (at_index v 3))"
| "setNumeric location TMat3 v =
     (case to_Float32Array v of Inl e \<Rightarrow> Inl e | Inr m \<Rightarrow> Inr (UniformMatrix3fv location m))"
| "setNumeric location TMat4 v =
     (case to_Float32Array v of Inl e \<Rightarrow> Inl e | Inr m \<Rightarrow> Inr (UniformMatrix4fv location m))"

definition unit_arg :: "nat \<Rightarrow> js_arg" where
  "unit_arg n = Arg (Number (Finite (of_nat n)))"

text \<open>
  \<^verbatim>\<open>setUniform(gl, location, uniform, textureUnit)\<close> makes one call on the context or
  throws; \<open>uniform_call\<close> is that call. The uniform is \<open>None\<close> when \<^verbatim>\<open>activeUniforms[key]\<close>
  is \<^verbatim>\<open>undefined\<close>: reading its \<^verbatim>\<open>type\<close> is a \<^verbatim>\<open>TypeError\<close>.
\<close>

definition uniform_call :: "nat \<Rightarrow> UniformValue option \<Rightarrow> nat option \<Rightarrow> error + gl_call" where
  "uniform_call location uniform textureUnit =
     (case uniform of
        None \<Rightarrow> Inl TypeError
      | Some (TextureUniform v opts) \<Rightarrow>
          (case textureUnit of
             None \<Rightarrow> Inl TextureUnitMustBeProvided
           | Some u \<Rightarrow> Inr (Uniform1i location (unit_arg u)))
      | Some (NumericUniform t v) \<Rightarrow> setNumeric location t v)"

definition setUniform ::
  "WebGLRenderingContext \<Rightarrow> nat \<Rightarrow> UniformValue option \<Rightarrow> nat option
   \<Rightarrow> error + WebGLRenderingContext" where
  "setUniform gl location uniform textureUnit =
     (case uniform_call location uniform textureUnit of
        Inl e \<Rightarrow> Inl e
      | Inr c \<Rightarrow> Inr (issue [c] gl))"

section \<open>The component (src/components/ShaderCanvas.tsx)\<close>

record builtInUniforms =
  u_time :: string
  u_resolution :: string
  u_mouse :: string

record ShaderCanvasOptions =
  builtInUniforms :: "builtInUniforms option"
  defaultTextureOptions :: "TextureOptions option"

text \<open>
  The canvas element: its backing store and its size on the page, whole numbers that are
  not negative.
\<close>

record canvas =
  width :: nat
  height :: nat
  clientWidth :: nat
  clientHeight :: nat

text \<open>
  \<^verbatim>\<open>canvas.width = v\<close>. The attribute is an \<^verbatim>\<open>unsigned long\<close> that reflects the content
  attribute: the number is truncated and taken modulo \<open>2^32\<close> (\<^verbatim>\<open>NaN\<close> and the infinities
  are 0), and a result above \<open>2^31 - 1\<close> is replaced by the default of the attribute, 300
  for the width and 150 for the height.
\<close>

fun to_unsigned_long :: "number \<Rightarrow> nat" where
  "to_unsigned_long (Finite r) = nat (trunc r mod 2 ^ 32)"
| "to_unsigned_long PosInfinity = 0"
| "to_unsigned_long NegInfinity = 0"
| "to_unsigned_long NaN = 0"

definition set_dimension :: "nat \<Rightarrow> number \<Rightarrow> nat" where
  "set_dimension fallback v =
     (let n = to_unsigned_long v in if 2147483647 < n then fallback else n)"

text \<open>
  \<^verbatim>\<open>WebGLProgramInfo\<close>: the context, the program (the location that
  \<^verbatim>\<open>gl.getUniformLocation\<close> gives for a name, if any) and the map of the locations of the
  custom uniforms.
\<close>

record programInfo =
  gl :: WebGLRenderingContext
  program :: "(string \<times> nat) list"
  uniformLocations :: "(string \<times> nat) list"

text \<open>
  The props and the refs of the component. Timestamps are finite doubles, in milliseconds.
  \<open>frameTimes\<close> are the values handed to \<^verbatim>\<open>onFrameRender\<close> so far.
\<close>

record ShaderCanvas =
  canvasRef :: "canvas option"
  programInfo :: "programInfo option"
  pixelRatio :: number
  options :: "ShaderCanvasOptions option"
  uniformsRef :: Uniforms
  previousUniformsRef :: "Uniforms option"
  changedUniformsRef :: "string list"
  mousePosition :: "rat \<times> rat"
  hook :: textures_state
  renderFnRef :: bool
  lastFrameTimeRef :: rat
  onFrameRenderRef :: bool
  frameTimes :: "number list"

text \<open>
  \<^verbatim>\<open>options?.builtInUniforms?.u_time || "u_time"\<close>: the default also replaces the
  empty string.
\<close>

definition builtin_name ::
  "ShaderCanvasOptions option \<Rightarrow> (builtInUniforms \<Rightarrow> string) \<Rightarrow> string \<Rightarrow> string" where
  "builtin_name opts field d =
     (case opts of
        None \<Rightarrow> d
      | Some o' \<Rightarrow>
          (case builtInUniforms o' of
             None \<Rightarrow> d
           | Some names \<Rightarrow> if field names = [] then d else field names))"

definition num_arg :: "rat \<Rightarrow> js_arg" where
  "num_arg r = Arg (Number (Finite r))"

text \<open>The effect that runs when the \<^verbatim>\<open>uniforms\<close> prop is replaced.\<close>

definition update_uniforms :: "Uniforms \<Rightarrow> ShaderCanvas \<Rightarrow> ShaderCanvas" where
  "update_uniforms uniforms c =
     c\<lparr>changedUniformsRef := getChangedUniforms uniforms (previousUniformsRef c),
       previousUniformsRef := Some (cloneUniforms uniforms),
       uniformsRef := uniforms\<rparr>"

text \<open>
  Line 46: the hook receives the context and the uniforms; the \<^verbatim>\<open>options\<close> prop is not
  handed on.
\<close>

definition manage_textures :: "dom \<Rightarrow> Uniforms \<Rightarrow> ShaderCanvas \<Rightarrow> ShaderCanvas" where
  "manage_textures d uniforms c =
     (case useTextures d (map_option gl (programInfo c)) (Some uniforms) (hook c) of
        (g, st) \<Rightarrow>
          c\<lparr>hook := st,
            programInfo :=
              (case (programInfo c, g) of
                 (Some p, Some g') \<Rightarrow> Some (p\<lparr>gl := g'\<rparr>)
               | _ \<Rightarrow> programInfo c)\<rparr>)"

text \<open>The three built-in uniforms of a frame, each set when the program has a location.\<close>

definition set_builtins ::
  "ShaderCanvasOptions option \<Rightarrow> (string \<times> nat) list \<Rightarrow> canvas \<Rightarrow> rat \<Rightarrow> rat \<times> rat
   \<Rightarrow> gl_call list" where
  "set_builtins opts prog cv time mouse =
     (case map_of prog (builtin_name opts u_resolution ''u_resolution'') of
        None \<Rightarrow> []
      | Some resLoc \<Rightarrow>
          [Uniform2f resLoc (num_arg (of_nat (width cv))) (num_arg (of_nat (height cv)))])
     @ (case map_of prog (builtin_name opts u_time ''u_time'') of
          None \<Rightarrow> []
        | Some timeLoc \<Rightarrow>
            [Uniform1f timeLoc (Arg (Number (double_times (Finite time) literal_0_001)))])
     @ (case map_of prog (builtin_name opts u_mouse ''u_mouse'') of
          None \<Rightarrow> []
        | Some mouseLocation \<Rightarrow>
            [Uniform2f mouseLocation (num_arg (fst mouse)) (num_arg (snd mouse))])"

text \<open>
  The loop over the current textures: the texture of a uniform whose source is a video or
  a canvas element is updated with that source; the others are left alone.
\<close>

fun refresh_dynamic ::
  "Uniforms \<Rightarrow> (string \<times> TextureInfo) list \<Rightarrow> WebGLRenderingContext
   \<Rightarrow> WebGLRenderingContext" where
  "refresh_dynamic activeUniforms [] g = g"
| "refresh_dynamic activeUniforms ((name, info) # rest) g =
     refresh_dynamic activeUniforms rest
       (case map_of activeUniforms name of
          Some (TextureUniform (HTMLVideoElement i) opts) \<Rightarrow>
            updateTexture g (texture info) (HTMLVideoElement i) opts (unit info)
        | Some (TextureUniform (HTMLCanvasElement i) opts) \<Rightarrow>
            updateTexture g (texture info) (HTMLCanvasElement i) opts (unit info)
        | _ \<Rightarrow> g)"

text \<open>
  One round of the loop over the changed names: skipped without a location; else the
  uniform is set inside a \<^verbatim>\<open>try\<close> whose \<^verbatim>\<open>catch\<close> writes the exception to the console.
\<close>

definition apply_uniform ::
  "(string \<times> nat) list \<Rightarrow> Uniforms \<Rightarrow> (string \<times> nat) list \<Rightarrow> string
   \<Rightarrow> WebGLRenderingContext \<times> console_entry list
   \<Rightarrow> WebGLRenderingContext \<times> console_entry list" where
  "apply_uniform locations activeUniforms units key s =
     (case s of (g, out) \<Rightarrow>
        (case map_of locations key of
           None \<Rightarrow> (g, out)
         | Some loc \<Rightarrow>
             (case setUniform g loc (map_of activeUniforms key) (map_of units key) of
                Inl e \<Rightarrow> (g, out @ [ErrorFailedToSetUniform key e])
              | Inr g' \<Rightarrow> (g', out))))"

fun apply_changed ::
  "(string \<times> nat) list \<Rightarrow> Uniforms \<Rightarrow> (string \<times> nat) list \<Rightarrow> string list
   \<Rightarrow> WebGLRenderingContext \<times> console_entry list
   \<Rightarrow> WebGLRenderingContext \<times> console_entry list" where
  "apply_changed locations activeUniforms units [] s = s"
| "apply_changed locations activeUniforms units (key # rest) s =
     apply_changed locations activeUniforms units rest
       (apply_uniform locations activeUniforms units key s)"

text \<open>
  \<^verbatim>\<open>renderLoop(time)\<close>; \<open>now\<close> is what \<^verbatim>\<open>performance.now()\<close> returns after the draw call.
\<close>

definition renderLoop :: "rat \<Rightarrow> rat \<Rightarrow> ShaderCanvas \<Rightarrow> ShaderCanvas" where
  "renderLoop time now c =
     (case (canvasRef c, programInfo c) of
        (Some cv, Some p) \<Rightarrow>
          (let g1 = issue ([ClearColor, Clear]
                      @ set_builtins (options c) (program p) cv time (mousePosition c)) (gl p);
               g2 = refresh_dynamic (uniformsRef c) (textures (hook c)) g1;
               (g3, out) =
                 apply_changed (uniformLocations p) (uniformsRef c) (textureUnits (hook c))
                   (changedUniformsRef c) (g2, console (hook c));
               g4 = issue [DrawArrays] g3;
               c' = c\<lparr>programInfo := Some (p\<lparr>gl := g4\<rparr>),
                      hook := (hook c)\<lparr>console := out\<rparr>,
                      changedUniformsRef := []\<rparr>
           in if onFrameRenderRef c
              then c'\<lparr>lastFrameTimeRef := now,
                      frameTimes := frameTimes c @ [double_minus now (lastFrameTimeRef c)]\<rparr>
              else c')
      | _ \<Rightarrow> c)"

text \<open>
  \<^verbatim>\<open>handleResize\<close>; \<open>now\<close> is the \<^verbatim>\<open>performance.now()\<close> handed to the render function and
  \<open>now'\<close> the one read inside it. The target is \<^verbatim>\<open>Math.floor\<close> of the double product of the
  client size and the pixel ratio; \<^verbatim>\<open>!==\<close> compares it with the backing store.
\<close>

definition handleResize :: "rat \<Rightarrow> rat \<Rightarrow> ShaderCanvas \<Rightarrow> ShaderCanvas" where
  "handleResize now now' c =
     (case (canvasRef c, programInfo c) of
        (Some cv, Some p) \<Rightarrow>
          (let displayWidth =
                 Math_floor (double_times (Finite (of_nat (clientWidth cv))) (pixelRatio c));
               displayHeight =
                 Math_floor (double_times (Finite (of_nat (clientHeight cv))) (pixelRatio c))
           in if \<not> strict_eq (Finite (of_nat (width cv))) displayWidth
                 \<or> \<not> strict_eq (Finite (of_nat (height cv))) displayHeight
              then
                (let c' = c\<lparr>canvasRef :=
                               Some (cv\<lparr>width := set_dimension 300 displayWidth,
                                       height := set_dimension 150 displayHeight\<rparr>),
                             programInfo :=
                               Some (p\<lparr>gl := issue [Viewport (Finite 0) (Finite 0)
                                                         displayWidth displayHeight] (gl p)\<rparr>)\<rparr>
                 in if renderFnRef c then renderLoop now now' c' else c')
              else c)
      | _ \<Rightarrow> c)"

section \<open>Observations on a run\<close>

text \<open>Animation frames at the given timestamps, with no update in between.\<close>

fun ticks :: "(rat \<times> rat) list \<Rightarrow> ShaderCanvas \<Rightarrow> ShaderCanvas" where
  "ticks [] c = c"
| "ticks ((time, now) # rest) c = ticks rest (renderLoop time now c)"

text \<open>The calls issued on the context of the component so far.\<close>

definition gl_calls :: "ShaderCanvas \<Rightarrow> gl_call list" where
  "gl_calls c = (case programInfo c of None \<Rightarrow> [] | Some p \<Rightarrow> calls (gl p))"

text \<open>The uploads of a source among the calls: its \<^verbatim>\<open>texImage2D\<close> calls.\<close>

definition uploads :: "TextureSource \<Rightarrow> gl_call list \<Rightarrow> nat" where
  "uploads s cs = count_list cs (TexImage2D s)"

definition draws :: "gl_call list \<Rightarrow> nat" where
  "draws cs = count_list cs DrawArrays"

fun is_viewport :: "gl_call \<Rightarrow> bool" where
  "is_viewport (Viewport x y w h) = True"
| "is_viewport _ = False"

definition viewports :: "gl_call list \<Rightarrow> gl_call list" where
  "viewports cs = filter is_viewport cs"

text \<open>A live video or a drawable canvas, as against a static image or a decoded bitmap.\<close>

fun is_dynamic :: "TextureSource \<Rightarrow> bool" where
  "is_dynamic (HTMLVideoElement i) = True"
| "is_dynamic (HTMLCanvasElement i) = True"
| "is_dynamic (HTMLImageElement i) = False"
| "is_dynamic (ImageBitmap i) = False"

text \<open>The bindings of the component whose current uniform is a texture of source \<open>s\<close>.\<close>

definition bound_to :: "TextureSource \<Rightarrow> Uniforms \<Rightarrow> string \<times> TextureInfo \<Rightarrow> bool" where
  "bound_to s activeUniforms binding =
     (case map_of activeUniforms (fst binding) of
        Some (TextureUniform v opts) \<Rightarrow> v = s
      | _ \<Rightarrow> False)"

definition bindings_of :: "TextureSource \<Rightarrow> ShaderCanvas \<Rightarrow> nat" where
  "bindings_of s c = length (filter (bound_to s (uniformsRef c)) (textures (hook c)))"

text \<open>
  The calls and the console lines of the loop over the changed names, name by name: a
  name with a location gives the call of \<open>uniform_call\<close>, or the line for its exception.
\<close>

definition applied_call ::
  "(string \<times> nat) list \<Rightarrow> Uniforms \<Rightarrow> (string \<times> nat) list \<Rightarrow> string \<Rightarrow> gl_call list" where
  "applied_call locations activeUniforms units key =
     (case map_of locations key of
        None \<Rightarrow> []
      | Some loc \<Rightarrow>
          (case uniform_call loc (map_of activeUniforms key) (map_of units key) of
             Inl e \<Rightarrow> []
           | Inr c \<Rightarrow> [c]))"

definition apply_error ::
  "(string \<times> nat) list \<Rightarrow> Uniforms \<Rightarrow> (string \<times> nat) list \<Rightarrow> string
   \<Rightarrow> console_entry list" where
  "apply_error locations activeUniforms units key =
     (case map_of locations key of
        None \<Rightarrow> []
      | Some loc \<Rightarrow>
          (case uniform_call loc (map_of activeUniforms key) (map_of units key) of
             Inl e \<Rightarrow> [ErrorFailedToSetUniform key e]
           | Inr c \<Rightarrow> []))"

text \<open>
  The calls that the loop over the current textures makes for one binding: those of
  \<open>updateTexture\<close> on the texture and the unit of the binding, with the source and the
  options of its current uniform, when that source is a video or a canvas.
\<close>

definition refresh_of :: "Uniforms \<Rightarrow> string \<times> TextureInfo \<Rightarrow> gl_call list" where
  "refresh_of activeUniforms binding =
     (case map_of activeUniforms (fst binding) of
        Some (TextureUniform v opts) \<Rightarrow>
          if is_dynamic v
          then updateTexture_calls (texture (snd binding)) v opts (unit (snd binding))
          else []
      | _ \<Rightarrow> [])"

text \<open>
  The time uniform in the words of the specification: the time elapsed since the render
  loop of the program began, in seconds.
\<close>

definition spec_elapsed_seconds :: "rat \<Rightarrow> rat \<Rightarrow> rat" where
  "spec_elapsed_seconds started time = (time - started) / 1000"

text \<open>
  The invariant of the pool: the name-to-unit map lists the units of the live bindings,
  name by name, and no unit is held twice.
\<close>

definition unit_of :: "string \<times> TextureInfo \<Rightarrow> string \<times> nat" where
  "unit_of binding = (fst binding, unit (snd binding))"

definition pool_ok :: "textures_state \<Rightarrow> bool" where
  "pool_ok st =
     (textureUnits st = map unit_of (textures st) \<and> distinct (map snd (textureUnits st)))"

section \<open>Scenarios\<close>

text \<open>A context with the given number of texture units and no call issued yet.\<close>

definition fresh_gl :: "nat \<Rightarrow> WebGLRenderingContext" where
  "fresh_gl maxUnits =
     \<lparr>MAX_COMBINED_TEXTURE_IMAGE_UNITS = maxUnits, contextLost = False, nextTexture = 0,
      calls = []\<rparr>"

text \<open>Every image is loaded and every video has a current frame.\<close>

definition all_ready :: dom where
  "all_ready = \<lparr>complete = (\<lambda>i. True), naturalWidth = (\<lambda>i. 1), readyState = (\<lambda>i. 4)\<rparr>"

definition no_textures :: textures_state where
  "no_textures = \<lparr>textures = [], textureUnits = [], console = []\<rparr>"

text \<open>
  A mounted component: a canvas shown at 400 by 300 with a backing store of 100 by 100,
  a pixel ratio of 2, a program that has the three built-in uniforms and a float
  \<open>u_a\<close>, no texture, and the render function registered or not. It was mounted, and its
  render loop began, at 3000 ms.
\<close>

definition mounted :: "bool \<Rightarrow> ShaderCanvas" where
  "mounted registered =
     \<lparr>canvasRef = Some \<lparr>width = 100, height = 100, clientWidth = 400, clientHeight = 300\<rparr>,
      programInfo =
        Some \<lparr>gl = fresh_gl 8,
              program = [(''u_resolution'', 0), (''u_time'', 1), (''u_mouse'', 2), (''u_a'', 3)],
              uniformLocations = [(''u_a'', 3)]\<rparr>,
      pixelRatio = Finite 2,
      options = None,
      uniformsRef = [(''u_a'', NumericUniform TFloat (Number (Finite 1)))],
      previousUniformsRef = None,
      changedUniformsRef = [''u_a''],
      mousePosition = (0, 0),
      hook = no_textures,
      renderFnRef = registered,
      lastFrameTimeRef = 3000,
      onFrameRenderRef = False,
      frameTimes = []\<rparr>"

text \<open>
  The same component showing an image \<open>u_image\<close> and a video \<open>u_video\<close>, both bound, whose
  changed names have been applied.
\<close>

definition showing_video :: ShaderCanvas where
  "showing_video =
     (mounted True)
       \<lparr>uniformsRef :=
          [(''u_image'', TextureUniform (HTMLImageElement 2) None),
           (''u_video'', TextureUniform (HTMLVideoElement 1) None)],
        changedUniformsRef := [],
        hook :=
          \<lparr>textures =
             [(''u_image'', \<lparr>texture = 4, source = HTMLImageElement 2, unit = 0\<rparr>),
              (''u_video'', \<lparr>texture = 5, source = HTMLVideoElement 1, unit = 1\<rparr>)],
           textureUnits = [(''u_image'', 0), (''u_video'', 1)],
           console = []\<rparr>\<rparr>"

text \<open>
  The component with a texture \<open>u_tex\<close> that has no unit and a float \<open>u_a\<close>, both changed
  and both with a location.
\<close>

definition with_unbound_texture :: ShaderCanvas where
  "with_unbound_texture =
     (case programInfo (mounted True) of
        None \<Rightarrow> mounted True
      | Some p \<Rightarrow>
          (mounted True)
            \<lparr>programInfo := Some (p\<lparr>uniformLocations := [(''u_tex'', 4), (''u_a'', 3)]\<rparr>),
             uniformsRef :=
               [(''u_tex'', TextureUniform (HTMLImageElement 2) None),
                (''u_a'', NumericUniform TFloat (Number (Finite 1)))],
             changedUniformsRef := [''u_tex'', ''u_a'']\<rparr>)"

text \<open>The calls and the console lines that one frame adds.\<close>

definition frame_calls :: "rat \<Rightarrow> rat \<Rightarrow> ShaderCanvas \<Rightarrow> gl_call list" where
  "frame_calls time now c = drop (length (gl_calls c)) (gl_calls (renderLoop time now c))"

definition frame_console :: "rat \<Rightarrow> rat \<Rightarrow> ShaderCanvas \<Rightarrow> console_entry list" where
  "frame_console time now c =
     drop (length (console (hook c))) (console (hook (renderLoop time now c)))"

section \<open>Arithmetic on numbers: proofs\<close>

lemma pow2_mono: "a \<le> b \<Longrightarrow> pow2 a \<le> pow2 b"
proof -
  assume ab: "a \<le> b"
  have eq: "pow2 e = 2 powi e" for e
    by (simp add: pow2_def power_int_def inverse_eq_divide power_one_over)
  show ?thesis unfolding eq using ab by (intro power_int_increasing) simp_all
qed

lemma find_upto_Some:
  assumes "i \<le> e" and "e \<le> j" and "P e" and "\<And>k. i \<le> k \<Longrightarrow> k < e \<Longrightarrow> \<not> P k"
  shows "find P [i..j] = Some e"
proof -
  let ?k = "nat (e - i)"
  have k: "?k < length [i..j]" using assms(1,2) by simp
  have nth: "[i..j] ! ?k = e" using assms(1,2) by simp
  have "\<not> P ([i..j] ! m)" if m: "m < ?k" for m
  proof -
    have "[i..j] ! m = i + int m" using m assms(2) by simp
    moreover have "i \<le> i + int m" "i + int m < e" using m by linarith+
    ultimately show ?thesis using assms(4) by simp
  qed
  then have "\<exists>n<length [i..j]. P ([i..j] ! n) \<and> e = [i..j] ! n \<and> (\<forall>m<n. \<not> P ([i..j] ! m))"
    using k nth assms(3) by (intro exI [of _ ?k]) simp
  then show ?thesis unfolding find_Some_iff by simp
qed

lemma binade_eq:
  assumes lo: "-1022 \<le> e" and hi: "e \<le> 1023"
    and above: "a < pow2 (e + 1)"
    and below: "e = -1022 \<or> pow2 e \<le> a"
  shows "binade a = Some e"
  unfolding binade_def
proof (rule find_upto_Some [where P = "\<lambda>e. a < pow2 (e + 1)", OF lo hi above])
  fix k :: int
  assume k: "-1022 \<le> k" "k < e"
  then have "pow2 (k + 1) \<le> pow2 e" by (intro pow2_mono) simp
  moreover have "pow2 e \<le> a" using below k by auto
  ultimately show "\<not> a < pow2 (k + 1)" by simp
qed

lemma round_half_even_near:
  assumes "\<bar>x - of_int n\<bar> < 1 / 2"
  shows "round_half_even x = n"
proof (cases "of_int n \<le> x")
  case True
  then have "\<lfloor>x\<rfloor> = n" using assms by (intro floor_unique) auto
  then show ?thesis using assms True by (simp add: round_half_even_def Let_def)
next
  case False
  then have f: "\<lfloor>x\<rfloor> = n - 1" using assms by (intro floor_unique) auto
  show ?thesis using assms False by (simp add: round_half_even_def Let_def f)
qed

lemma round_half_even_tie:
  assumes "x = of_int m + 1 / 2"
  shows "round_half_even x = (if even m then m else m + 1)"
proof -
  have "\<lfloor>x\<rfloor> = m" unfolding assms by (intro floor_unique) auto
  then show ?thesis by (simp add: round_half_even_def Let_def assms)
qed

lemma round_double_pos:
  assumes "0 < r" and "-1022 \<le> e" and "e \<le> 1023" and "r < pow2 (e + 1)"
    and "e = -1022 \<or> pow2 e \<le> r"
    and "round_half_even (r / pow2 (e - 52)) = n"
    and "of_int n * pow2 (e - 52) < pow2 1024"
  shows "round_double r = Finite (of_int n * pow2 (e - 52))"
proof -
  have "binade \<bar>r\<bar> = Some e"
    using assms(1) by (intro binade_eq assms(2,3)) (simp_all add: assms(4,5))
  then show ?thesis
    using assms(1,6,7) by (simp add: round_double_def Let_def)
qed

lemma round_double_0: "round_double 0 = Finite 0"
  by (simp add: round_double_def)

lemma times_zero: "double_times (Finite a) (Finite 0) = Finite 0"
  by (simp add: round_double_0)

text \<open>
  Some products: 400 * 2, 300 * 2, 400 * 1.2, 300 * 1.2, 5000 * 0.001, the tie 10 * 0.7,
  and 100 * 4.35, whose floor is 434.
\<close>

lemma times_400_2: "double_times (Finite 400) (Finite 2) = Finite 800"
proof -
  have "round_half_even (800 / pow2 (9 - 52)) = 7036874417766400"
    by (intro round_half_even_near) (simp add: pow2_def)
  then have "round_double 800 = Finite (of_int 7036874417766400 * pow2 (9 - 52))"
    by (intro round_double_pos) (simp_all add: pow2_def)
  then show ?thesis by (simp add: pow2_def)
qed

lemma times_300_2: "double_times (Finite 300) (Finite 2) = Finite 600"
proof -
  have "round_half_even (600 / pow2 (9 - 52)) = 5277655813324800"
    by (intro round_half_even_near) (simp add: pow2_def)
  then have "round_double 600 = Finite (of_int 5277655813324800 * pow2 (9 - 52))"
    by (intro round_double_pos) (simp_all add: pow2_def)
  then show ?thesis by (simp add: pow2_def)
qed

lemma times_400_1_2:
  "double_times (Finite 400) (Finite (5404319552844595 / 2 ^ 52)) = Finite 480"
proof -
  let ?r = "400 * (5404319552844595 / 2 ^ 52) :: rat"
  have "round_half_even (?r / pow2 (8 - 52)) = 8444249301319680"
    by (intro round_half_even_near) (simp add: pow2_def)
  then have "round_double ?r = Finite (of_int 8444249301319680 * pow2 (8 - 52))"
    by (intro round_double_pos) (simp_all add: pow2_def)
  then show ?thesis by (simp add: pow2_def)
qed

lemma times_300_1_2:
  "double_times (Finite 300) (Finite (5404319552844595 / 2 ^ 52)) = Finite 360"
proof -
  let ?r = "300 * (5404319552844595 / 2 ^ 52) :: rat"
  have "round_half_even (?r / pow2 (8 - 52)) = 6333186975989760"
    by (intro round_half_even_near) (simp add: pow2_def)
  then have "round_double ?r = Finite (of_int 6333186975989760 * pow2 (8 - 52))"
    by (intro round_double_pos) (simp_all add: pow2_def)
  then show ?thesis by (simp add: pow2_def)
qed

lemma times_10_0_7:
  "double_times (Finite 10) (Finite (3152519739159347 / 2 ^ 52)) = Finite 7"
proof -
  let ?r = "10 * (3152519739159347 / 2 ^ 52) :: rat"
  have "?r / pow2 (2 - 52) = of_int 7881299347898367 + 1 / 2"
    by (simp add: pow2_def)
  then have "round_half_even (?r / pow2 (2 - 52)) = 7881299347898368"
    by (simp only: round_half_even_tie) simp
  then have "round_double ?r = Finite (of_int 7881299347898368 * pow2 (2 - 52))"
    by (intro round_double_pos) (simp_all add: pow2_def)
  then show ?thesis by (simp add: pow2_def)
qed

lemma times_5000_0_001: "double_times (Finite 5000) literal_0_001 = Finite 5"
proof -
  let ?r = "5000 * (1152921504606847 / 2 ^ 60) :: rat"
  have "round_half_even (?r / pow2 (2 - 52)) = 5629499534213120"
    by (intro round_half_even_near) (simp add: pow2_def)
  then have "round_double ?r = Finite (of_int 5629499534213120 * pow2 (2 - 52))"
    by (intro round_double_pos) (simp_all add: pow2_def)
  then show ?thesis by (simp add: pow2_def literal_0_001_def)
qed

lemma round_double_minus:
  assumes "0 < r" and "round_double r = Finite v"
  shows "round_double (- r) = Finite (- v)"
proof (cases "binade \<bar>r\<bar>")
  case None
  then show ?thesis using assms by (simp add: round_double_def infinity_def)
next
  case (Some e)
  then show ?thesis
    using assms by (simp add: round_double_def infinity_def Let_def split: if_splits)
qed

lemma round_double_400: "round_double 400 = Finite 400"
proof -
  have "round_half_even (400 / pow2 (8 - 52)) = 7036874417766400"
    by (intro round_half_even_near) (simp add: pow2_def)
  then have "round_double 400 = Finite (of_int 7036874417766400 * pow2 (8 - 52))"
    by (intro round_double_pos) (simp_all add: pow2_def)
  then show ?thesis by (simp add: pow2_def)
qed

lemma round_double_300: "round_double 300 = Finite 300"
proof -
  have "round_half_even (300 / pow2 (8 - 52)) = 5277655813324800"
    by (intro round_half_even_near) (simp add: pow2_def)
  then have "round_double 300 = Finite (of_int 5277655813324800 * pow2 (8 - 52))"
    by (intro round_double_pos) (simp_all add: pow2_def)
  then show ?thesis by (simp add: pow2_def)
qed

lemma times_400_minus_1: "double_times (Finite 400) (Finite (- 1)) = Finite (- 400)"
  using round_double_minus [OF _ round_double_400] by simp

lemma times_300_minus_1: "double_times (Finite 300) (Finite (- 1)) = Finite (- 300)"
  using round_double_minus [OF _ round_double_300] by simp

lemma round_double_800: "round_double 800 = Finite 800"
  using times_400_2 by simp

lemma round_double_600: "round_double 600 = Finite 600"
  using times_300_2 by simp

lemma round_double_minus_400: "round_double (- 400) = Finite (- 400)"
  using times_400_minus_1 by simp

lemma round_double_minus_300: "round_double (- 300) = Finite (- 300)"
  using times_300_minus_1 by simp

lemma floor_100_4_35:
  "Math_floor (double_times (Finite 100) (Finite (2448832297382707 / 2 ^ 49))) = Finite 434"
proof -
  let ?r = "100 * (2448832297382707 / 2 ^ 49) :: rat"
  have "round_half_even (?r / pow2 (8 - 52)) = 7652600929320959"
    by (intro round_half_even_near) (simp add: pow2_def)
  then have "round_double ?r = Finite (of_int 7652600929320959 * pow2 (8 - 52))"
    by (intro round_double_pos) (simp_all add: pow2_def)
  moreover have "\<lfloor>of_int 7652600929320959 * pow2 (8 - 52)\<rfloor> = 434"
    by (intro floor_unique) (simp_all add: pow2_def)
  ultimately show ?thesis by simp
qed

section \<open>Uniform diff engine: proofs\<close>

lemma every_eq_conv: "every_eq xs ys = list_all2 strict_eq xs ys"
  by (auto simp: every_eq_def dest: list_all2_lengthD)

lemma options_equal_conv: "optionsEqual a b = (\<not> spec_options_differ a b)"
  by (cases a; cases b) (auto simp: optionsEqual_def)

lemma uniformsEqual_conv: "uniformsEqual a b = (\<not> value_unequal a b)"
proof (cases a)
  case (TextureUniform av ao)
  then show ?thesis by (cases b) (auto simp: options_equal_conv)
next
  case (NumericUniform ta va)
  show ?thesis
  proof (cases b)
    case (TextureUniform bv bo)
    with NumericUniform show ?thesis by simp
  next
    case nb: (NumericUniform tb vb)
    show ?thesis unfolding NumericUniform nb
      by (cases va; cases vb) (auto simp: every_eq_conv spec_element_differs_def)
  qed
qed

lemma set_set_add: "set (set_add k s) = insert k (set s)"
  by (auto simp: set_add_def)

lemma set_fold_set_add: "set (fold set_add ks acc) = set acc \<union> set ks"
  by (induction ks arbitrary: acc) (auto simp: set_set_add)

lemma set_new_Set: "set (new_Set ks) = set ks"
  by (simp add: new_Set_def set_fold_set_add)

lemma set_changed_step:
  "set (changed_step current prev k acc) =
     (if value_changed current (Some prev) k \<or> map_of current k = None
      then insert k (set acc) else set acc)"
  by (auto simp: changed_step_def value_changed_def set_set_add uniformsEqual_conv
      split: option.splits)

lemma set_fold_changed_step:
  "set (fold (changed_step current prev) ks acc) =
     set acc \<union> {k \<in> set ks. value_changed current (Some prev) k \<or> map_of current k = None}"
  by (induction ks arbitrary: acc) (auto simp: set_changed_step)

lemma value_changed_key: "value_changed current previous k \<Longrightarrow> k \<in> fst ` set current"
  by (auto simp: value_changed_def split: option.splits dest: map_of_SomeD intro: rev_image_eqI)

lemma set_getChangedUniforms:
  "set (getChangedUniforms current previous) = {k. value_changed current previous k}"
proof (cases previous)
  case None
  then show ?thesis
    by (auto simp: getChangedUniforms_def set_new_Set value_changed_def map_of_eq_None_iff
        split: option.splits)
next
  case (Some prev)
  show ?thesis unfolding Some
    using value_changed_key [of current "Some prev"]
    by (auto simp: getChangedUniforms_def set_fold_changed_step map_of_eq_None_iff)
qed

lemma map_of_fold_clone_step:
  "map_of (fold (clone_step uniforms) ks acc) k =
     (if k \<in> set ks \<and> map_of uniforms k \<noteq> None
      then map_option cloneUniformValue (map_of uniforms k) else map_of acc k)"
proof (induction ks arbitrary: acc)
  case Nil
  then show ?case by simp
next
  case (Cons x ks)
  show ?case
  proof -
    have "map_of (clone_step uniforms x acc) k =
            (if k = x \<and> map_of uniforms k \<noteq> None
             then map_option cloneUniformValue (map_of uniforms k) else map_of acc k)"
      by (cases "map_of uniforms x") (auto simp: clone_step_def update_conv')
    then show ?thesis by (auto simp: Cons.IH)
  qed
qed

lemma map_of_cloneUniforms:
  "map_of (cloneUniforms uniforms) k = map_option cloneUniformValue (map_of uniforms k)"
proof (cases "map_of uniforms k")
  case None
  then show ?thesis by (simp add: cloneUniforms_def map_of_fold_clone_step)
next
  case (Some a)
  then have "k \<in> fst ` set uniforms"
    by (auto dest: map_of_SomeD intro: rev_image_eqI)
  with Some show ?thesis by (simp add: cloneUniforms_def map_of_fold_clone_step)
qed

lemma strict_eq_refl: "x \<noteq> NaN \<Longrightarrow> strict_eq x x"
  by (simp add: strict_eq_def)

lemma list_all2_strict_eq_refl: "NaN \<notin> set xs \<Longrightarrow> list_all2 strict_eq xs xs"
  by (induction xs) (auto simp: strict_eq_refl)

lemma uniformsEqual_clone: "nan_free_value a \<Longrightarrow> uniformsEqual a (cloneUniformValue a)"
proof (cases a)
  case (TextureUniform v opts)
  then show ?thesis by (cases opts) (auto simp: optionsEqual_def)
next
  case (NumericUniform t v)
  assume "nan_free_value a"
  with NumericUniform show ?thesis
    by (cases v) (auto simp: every_eq_conv list_all2_strict_eq_refl strict_eq_refl)
qed

lemma nan_free_lookup: "nan_free uniforms \<Longrightarrow> map_of uniforms k = Some a \<Longrightarrow> nan_free_value a"
  by (force simp: nan_free_def list_all_iff dest!: map_of_SomeD)

text \<open>
  C1, as amended. The names returned by \<open>getChangedUniforms current previous\<close> are exactly
  the keys of \<open>current\<close> that are absent from \<open>previous\<close> or mapped to an unequal value,
  where, beyond the cases of the specification (kind, element under exact equality, source
  reference, field of the options), two numeric values held in different representations
  are unequal. With no \<open>previous\<close> the result is the key set of \<open>current\<close>, and a name
  that is not a key of \<open>current\<close> is never returned.
\<close>

theorem getChangedUniforms_changed_names:
  "(name \<in> set (getChangedUniforms current previous) \<longleftrightarrow> value_changed current previous name)
   \<and> set (getChangedUniforms current None) = fst ` set current
   \<and> (map_of current name = None \<longrightarrow> name \<notin> set (getChangedUniforms current previous))"
proof -
  have "set (getChangedUniforms current None) = fst ` set current"
    by (simp add: getChangedUniforms_def set_new_Set)
  moreover have "map_of current name = None \<longrightarrow> \<not> value_changed current previous name"
    by (simp add: value_changed_def)
  ultimately show ?thesis by (simp add: set_getChangedUniforms)
qed

theorem getChangedUniforms_changed_names_witness:
  "set (getChangedUniforms
          [(''u_a'', NumericUniform TFloat (Number (Finite 1))),
           (''u_b'', NumericUniform TVec2 (NumberArray [Finite 0, Finite 0]))]
          (Some [(''u_a'', NumericUniform TFloat (Number (Finite 1))),
                 (''u_old'', NumericUniform TFloat (Number (Finite 5)))])) = {''u_b''}"
proof -
  let ?cur = "[(''u_a'', NumericUniform TFloat (Number (Finite 1))),
               (''u_b'', NumericUniform TVec2 (NumberArray [Finite 0, Finite 0]))]"
  let ?prev = "Some [(''u_a'', NumericUniform TFloat (Number (Finite 1))),
                     (''u_old'', NumericUniform TFloat (Number (Finite 5)))]"
  have "name \<in> set (getChangedUniforms ?cur ?prev) \<longleftrightarrow> name = ''u_b''" for name
    using getChangedUniforms_changed_names [of name ?cur ?prev]
    by (simp add: value_changed_def spec_element_differs_def strict_eq_def)
  then show ?thesis by blast
qed

text \<open>
  C1, as stated, fails: a vec2 held as a plain array in \<open>current\<close> and as a
  \<^verbatim>\<open>Float32Array\<close> with the same elements in \<open>previous\<close> is returned, though its kind is
  the same and no element differs.
\<close>

theorem getChangedUniforms_spec_counterexample:
  "''u_m'' \<in> set (getChangedUniforms
       [(''u_m'', NumericUniform TVec2 (NumberArray [Finite 1, Finite 2]))]
       (Some [(''u_m'', NumericUniform TVec2 (Float32Array [Finite 1, Finite 2]))]))
   \<and> \<not> spec_changed
       [(''u_m'', NumericUniform TVec2 (NumberArray [Finite 1, Finite 2]))]
       (Some [(''u_m'', NumericUniform TVec2 (Float32Array [Finite 1, Finite 2]))]) ''u_m''"
  by (simp add: getChangedUniforms_def changed_step_def set_add_def spec_changed_def
      spec_element_differs_def strict_eq_def)

text \<open>
  C2, as amended. For every snapshot none of whose numeric values holds a \<^verbatim>\<open>NaN\<close>, the
  diff of the snapshot against its clone is empty, and every entry of the snapshot is
  \<open>uniformsEqual\<close> to the entry of the clone under the same name.
\<close>

theorem clone_diff_empty:
  assumes "nan_free A"
  shows "getChangedUniforms A (Some (cloneUniforms A)) = []
         \<and> (\<forall>name a. map_of A name = Some a \<longrightarrow>
               (\<exists>b. map_of (cloneUniforms A) name = Some b \<and> uniformsEqual a b))"
proof -
  have eq: "\<exists>b. map_of (cloneUniforms A) name = Some b \<and> uniformsEqual a b"
    if "map_of A name = Some a" for name a
    using that assms by (auto simp: map_of_cloneUniforms dest: nan_free_lookup uniformsEqual_clone)
  have "\<not> value_changed A (Some (cloneUniforms A)) name" for name
  proof (cases "map_of A name")
    case None
    then show ?thesis by (simp add: value_changed_def)
  next
    case (Some a)
    with eq obtain b where "map_of (cloneUniforms A) name = Some b" "uniformsEqual a b"
      by blast
    with Some show ?thesis by (simp add: value_changed_def uniformsEqual_conv)
  qed
  then have "set (getChangedUniforms A (Some (cloneUniforms A))) = {}"
    by (simp add: set_getChangedUniforms)
  with eq show ?thesis by simp
qed

theorem clone_diff_empty_witness:
  "nan_free [(''u_a'', NumericUniform TVec2 (NumberArray [Finite 1, Finite 2])),
             (''u_t'', TextureUniform (HTMLImageElement 0) None)]
   \<and> getChangedUniforms
       [(''u_a'', NumericUniform TVec2 (NumberArray [Finite 1, Finite 2])),
        (''u_t'', TextureUniform (HTMLImageElement 0) None)]
       (Some (cloneUniforms
          [(''u_a'', NumericUniform TVec2 (NumberArray [Finite 1, Finite 2])),
           (''u_t'', TextureUniform (HTMLImageElement 0) None)])) = []"
proof -
  have h: "nan_free [(''u_a'', NumericUniform TVec2 (NumberArray [Finite 1, Finite 2])),
                     (''u_t'', TextureUniform (HTMLImageElement 0) None)]"
    by (simp add: nan_free_def)
  show ?thesis using h clone_diff_empty [OF h] by simp
qed

text \<open>
  C2, as stated, fails: a float uniform whose value is \<^verbatim>\<open>NaN\<close> is reported as changed
  against its own clone, since \<^verbatim>\<open>NaN === NaN\<close> is false.
\<close>

theorem clone_diff_nan_counterexample:
  "getChangedUniforms [(''u_x'', NumericUniform TFloat (Number NaN))]
     (Some (cloneUniforms [(''u_x'', NumericUniform TFloat (Number NaN))])) = [''u_x'']"
  by (simp add: getChangedUniforms_def cloneUniforms_def clone_step_def changed_step_def
      set_add_def strict_eq_def)

text \<open>
  C10. Two numeric uniforms of the same kind with the same elements, one a plain array
  and the other a \<^verbatim>\<open>Float32Array\<close>, are not \<open>uniformsEqual\<close> (in either order), and
  \<open>getChangedUniforms\<close> returns a name that maps to the one in \<open>current\<close> and to the other
  in \<open>previous\<close>.
\<close>

theorem uniformsEqual_representation_mismatch:
  "\<not> uniformsEqual (NumericUniform t (NumberArray xs)) (NumericUniform t (Float32Array xs))
   \<and> \<not> uniformsEqual (NumericUniform t (Float32Array xs)) (NumericUniform t (NumberArray xs))
   \<and> (map_of current name = Some (NumericUniform t (NumberArray xs))
        \<and> map_of previous name = Some (NumericUniform t (Float32Array xs))
      \<longrightarrow> name \<in> set (getChangedUniforms current (Some previous)))
   \<and> (map_of current name = Some (NumericUniform t (Float32Array xs))
        \<and> map_of previous name = Some (NumericUniform t (NumberArray xs))
      \<longrightarrow> name \<in> set (getChangedUniforms current (Some previous)))"
  by (simp add: set_getChangedUniforms value_changed_def)

theorem uniformsEqual_representation_mismatch_witness:
  "''u_m'' \<in> set (getChangedUniforms
      [(''u_a'', NumericUniform TFloat (Number (Finite 1))),
       (''u_m'', NumericUniform TMat3 (Float32Array (replicate 9 (Finite 0))))]
      (Some [(''u_a'', NumericUniform TFloat (Number (Finite 1))),
             (''u_m'', NumericUniform TMat3 (NumberArray (replicate 9 (Finite 0))))]))"
  using uniformsEqual_representation_mismatch
    [of TMat3 "replicate 9 (Finite 0)"
        "[(''u_a'', NumericUniform TFloat (Number (Finite 1))),
          (''u_m'', NumericUniform TMat3 (Float32Array (replicate 9 (Finite 0))))]"
        "''u_m''"
        "[(''u_a'', NumericUniform TFloat (Number (Finite 1))),
          (''u_m'', NumericUniform TMat3 (NumberArray (replicate 9 (Finite 0))))]"]
  by simp

section \<open>Texture resource manager: proofs\<close>

lemma find_upt_Some:
  "find P [0..<n] = Some i \<longleftrightarrow> i < n \<and> P i \<and> (\<forall>j<i. \<not> P j)"
proof
  assume "find P [0..<n] = Some i"
  then obtain k where k: "k < length [0..<n]" "P ([0..<n] ! k)" "i = [0..<n] ! k"
    "\<forall>j<k. \<not> P ([0..<n] ! j)"
    unfolding find_Some_iff by blast
  then show "i < n \<and> P i \<and> (\<forall>j<i. \<not> P j)" by auto
next
  assume a: "i < n \<and> P i \<and> (\<forall>j<i. \<not> P j)"
  then have "i < length [0..<n] \<and> P ([0..<n] ! i) \<and> i = [0..<n] ! i
              \<and> (\<forall>j<i. \<not> P ([0..<n] ! j))"
    by auto
  then show "find P [0..<n] = Some i" unfolding find_Some_iff by blast
qed

lemma find_upt_None: "find P [0..<n] = None \<longleftrightarrow> (\<forall>i<n. \<not> P i)"
  by (auto simp: find_None_iff)

lemma getAvailableUnit_find:
  "getAvailableUnit g units =
     (case find (\<lambda>i. i \<notin> snd ` set units) [0..<MAX_COMBINED_TEXTURE_IMAGE_UNITS g] of
        Some i \<Rightarrow> Inr i
      | None \<Rightarrow> Inl (NoAvailableTextureUnits (MAX_COMBINED_TEXTURE_IMAGE_UNITS g)))"
  by (simp add: getAvailableUnit_def Let_def)

lemma getAvailableUnit_Inr:
  "getAvailableUnit g units = Inr i \<longleftrightarrow>
     i < MAX_COMBINED_TEXTURE_IMAGE_UNITS g \<and> i \<notin> snd ` set units
     \<and> (\<forall>j<i. j \<in> snd ` set units)"
proof -
  have "getAvailableUnit g units = Inr i \<longleftrightarrow>
          find (\<lambda>i. i \<notin> snd ` set units) [0..<MAX_COMBINED_TEXTURE_IMAGE_UNITS g] = Some i"
    by (simp add: getAvailableUnit_find split: option.splits)
  then show ?thesis by (simp add: find_upt_Some)
qed

lemma getAvailableUnit_Inl:
  "getAvailableUnit g units = Inl e \<longleftrightarrow>
     e = NoAvailableTextureUnits (MAX_COMBINED_TEXTURE_IMAGE_UNITS g)
     \<and> (\<forall>i<MAX_COMBINED_TEXTURE_IMAGE_UNITS g. i \<in> snd ` set units)"
proof -
  have "getAvailableUnit g units = Inl e \<longleftrightarrow>
          e = NoAvailableTextureUnits (MAX_COMBINED_TEXTURE_IMAGE_UNITS g)
          \<and> find (\<lambda>i. i \<notin> snd ` set units) [0..<MAX_COMBINED_TEXTURE_IMAGE_UNITS g] = None"
    by (auto simp: getAvailableUnit_find split: option.splits)
  then show ?thesis by (simp add: find_upt_None)
qed

lemma update_fresh: "k \<notin> fst ` set al \<Longrightarrow> AList.update k v al = al @ [(k, v)]"
  by (induction al) auto

lemma createTexture_ok:
  "\<not> contextLost g \<Longrightarrow>
   \<exists>g'. createTexture g v opts u = Inr (nextTexture g, g')
         \<and> MAX_COMBINED_TEXTURE_IMAGE_UNITS g' = MAX_COMBINED_TEXTURE_IMAGE_UNITS g
         \<and> contextLost g' = contextLost g"
  by (simp add: createTexture_def Let_def issue_def)

lemma create_step_fresh:
  assumes ready: "isTextureSourceReady d v"
    and fresh: "name \<notin> fst ` set (textures st)"
    and unit: "getAvailableUnit g (textureUnits st) = Inr u"
    and ctx: "\<not> contextLost g"
  shows "\<exists>g'. create_or_update d name (v, opts) (g, st) =
           (g', st\<lparr>textures := AList.update name \<lparr>texture = nextTexture g, source = v, unit = u\<rparr>
                                  (textures st),
                    textureUnits := AList.update name u (textureUnits st)\<rparr>)
         \<and> MAX_COMBINED_TEXTURE_IMAGE_UNITS g' = MAX_COMBINED_TEXTURE_IMAGE_UNITS g
         \<and> contextLost g' = contextLost g"
proof -
  from fresh have none: "map_of (textures st) name = None"
    by (simp add: map_of_eq_None_iff)
  from createTexture_ok [OF ctx, of v opts u] obtain g' where
    c: "createTexture g v opts u = Inr (nextTexture g, g')"
    and m: "MAX_COMBINED_TEXTURE_IMAGE_UNITS g' = MAX_COMBINED_TEXTURE_IMAGE_UNITS g"
    and l: "contextLost g' = contextLost g"
    by blast
  show ?thesis
    using ready none unit c m l by (simp add: create_or_update_def)
qed

lemma create_all_fresh:
  assumes "distinct (map fst tus)"
    and "\<forall>(name, v, opts) \<in> set tus. isTextureSourceReady d v"
    and "fst ` set tus \<inter> fst ` set (textures st) = {}"
    and "fst ` set tus \<inter> fst ` set (textureUnits st) = {}"
    and "snd ` set (textureUnits st) = {0..<n}"
    and "n + length tus \<le> MAX_COMBINED_TEXTURE_IMAGE_UNITS g"
    and "\<not> contextLost g"
  shows "textureUnits (snd (create_or_update_all d tus (g, st))) =
           textureUnits st @ zip (map fst tus) [n..<n + length tus]"
  using assms
proof (induction tus arbitrary: g st n)
  case Nil
  then show ?case by simp
next
  case (Cons entry tus)
  obtain name v opts where entry: "entry = (name, v, opts)"
    by (cases entry) auto
  have ready: "isTextureSourceReady d v"
    using Cons.prems(2) entry by auto
  have fresh: "name \<notin> fst ` set (textures st)" and fresh_u: "name \<notin> fst ` set (textureUnits st)"
    using Cons.prems(3,4) entry by auto
  have unit: "getAvailableUnit g (textureUnits st) = Inr n"
    using Cons.prems(5,6) by (simp add: getAvailableUnit_Inr)
  from create_step_fresh [where name = name and opts = opts, OF ready fresh unit Cons.prems(7)]
  obtain g' where
    step: "create_or_update d name (v, opts) (g, st) =
             (g', st\<lparr>textures := AList.update name \<lparr>texture = nextTexture g, source = v, unit = n\<rparr>
                                    (textures st),
                      textureUnits := AList.update name n (textureUnits st)\<rparr>)"
    and m: "MAX_COMBINED_TEXTURE_IMAGE_UNITS g' = MAX_COMBINED_TEXTURE_IMAGE_UNITS g"
    and l: "contextLost g' = contextLost g"
    by blast
  let ?st = "st\<lparr>textures := AList.update name \<lparr>texture = nextTexture g, source = v, unit = n\<rparr>
                                (textures st),
                  textureUnits := AList.update name n (textureUnits st)\<rparr>"
  have units: "textureUnits ?st = textureUnits st @ [(name, n)]"
    using fresh_u by (simp add: update_fresh)
  have p1: "distinct (map fst tus)" using Cons.prems(1) by simp
  have p2: "\<forall>(name, v, opts) \<in> set tus. isTextureSourceReady d v" using Cons.prems(2) by simp
  have notin: "name \<notin> fst ` set tus" using Cons.prems(1) entry by (auto simp: image_iff)
  have p3: "fst ` set tus \<inter> fst ` set (textures ?st) = {}"
    using Cons.prems(3) notin by (auto simp: dom_update)
  have p4: "fst ` set tus \<inter> fst ` set (textureUnits ?st) = {}"
    using Cons.prems(4) notin by (auto simp: dom_update)
  have p5: "snd ` set (textureUnits ?st) = {0..<Suc n}"
    using Cons.prems(5) units by (auto simp: image_Un)
  have p6: "Suc n + length tus \<le> MAX_COMBINED_TEXTURE_IMAGE_UNITS g'"
    using Cons.prems(6) m by simp
  have p7: "\<not> contextLost g'" using Cons.prems(7) l by simp
  have "textureUnits (snd (create_or_update_all d tus (g', ?st))) =
          textureUnits ?st @ zip (map fst tus) [Suc n..<Suc n + length tus]"
    by (rule Cons.IH [OF p1 p2 p3 p4 p5 p6 p7])
  moreover have "[n..<n + length (entry # tus)] = n # [Suc n..<Suc n + length tus]"
    using upt_conv_Cons [of n "Suc n + length tus"] by simp
  ultimately show ?case
    using step units entry by simp
qed

lemma remove_textures_units:
  "textureUnits (snd (remove_textures tus ts (g, st))) =
     filter (\<lambda>(n, u). \<not> (n \<in> fst ` set ts \<and> map_of tus n = None)) (textureUnits st)"
proof (induction ts arbitrary: g st)
  case Nil
  then show ?case by simp
next
  case (Cons entry ts)
  obtain name info where entry: "entry = (name, info)" by (cases entry) auto
  show ?case
    unfolding entry
    by (auto simp: Cons.IH AList.delete_eq intro!: filter_cong)
qed

lemma remove_textures_max:
  "MAX_COMBINED_TEXTURE_IMAGE_UNITS (fst (remove_textures tus ts (g, st))) =
     MAX_COMBINED_TEXTURE_IMAGE_UNITS g"
proof (induction ts arbitrary: g st)
  case Nil
  then show ?case by simp
next
  case (Cons entry ts)
  obtain name info where entry: "entry = (name, info)" by (cases entry) auto
  show ?case unfolding entry by (simp add: Cons.IH deleteTexture_def issue_def)
qed

lemma removal_frees_unit:
  assumes dist: "distinct (map snd (textureUnits st))"
    and held: "(old, k) \<in> set (textureUnits st)"
    and live: "old \<in> fst ` set (textures st)"
    and gone: "map_of tus old = None"
    and below: "\<forall>j<k. \<exists>n. (n, j) \<in> set (textureUnits st) \<and> map_of tus n \<noteq> None"
    and max: "k < MAX_COMBINED_TEXTURE_IMAGE_UNITS g"
  shows "getAvailableUnit (fst (remove_textures tus (textures st) (g, st)))
           (textureUnits (snd (remove_textures tus (textures st) (g, st)))) = Inr k"
proof -
  let ?us = "textureUnits (snd (remove_textures tus (textures st) (g, st)))"
  have us: "?us = filter (\<lambda>(n, u). \<not> (n \<in> fst ` set (textures st) \<and> map_of tus n = None))
                    (textureUnits st)"
    by (rule remove_textures_units)
  have "k \<notin> snd ` set ?us"
  proof
    assume "k \<in> snd ` set ?us"
    then obtain n where n: "(n, k) \<in> set ?us" by auto
    then have mem: "(n, k) \<in> set (textureUnits st)" and keep: "\<not> (n \<in> fst ` set (textures st) \<and> map_of tus n = None)"
      unfolding us by auto
    from keep live gone have "n \<noteq> old" by auto
    moreover have "inj_on snd (set (textureUnits st))"
      using dist by (simp add: distinct_map)
    ultimately show False
      using mem held inj_onD [of snd "set (textureUnits st)" "(n, k)" "(old, k)"] by simp
  qed
  moreover have "\<forall>j<k. j \<in> snd ` set ?us"
  proof (intro allI impI)
    fix j assume "j < k"
    with below obtain n where "(n, j) \<in> set (textureUnits st)" "map_of tus n \<noteq> None" by blast
    then have "(n, j) \<in> set ?us" unfolding us by auto
    then show "j \<in> snd ` set ?us" by force
  qed
  ultimately show ?thesis
    using max by (simp add: getAvailableUnit_Inr remove_textures_max)
qed

lemma map_unit_of_delete: "map unit_of (AList.delete k al) = AList.delete k (map unit_of al)"
  by (induction al) (auto simp: unit_of_def)

lemma map_unit_of_update:
  "map unit_of (AList.update k v al) = AList.update k (unit v) (map unit_of al)"
  by (induction al) (auto simp: unit_of_def)

lemma map_of_unit_of: "map_of (map unit_of al) k = map_option unit (map_of al k)"
  by (induction al) (auto simp: unit_of_def)

lemma fst_unit_of: "fst ` unit_of ` A = fst ` A"
  by (force simp: unit_of_def)

lemma distinct_snd_delete:
  "distinct (map snd al) \<Longrightarrow> distinct (map snd (AList.delete k al))"
  by (simp add: AList.delete_eq distinct_map_filter)

lemma pool_okI:
  "textureUnits st = map unit_of (textures st) \<Longrightarrow> distinct (map snd (textureUnits st))
   \<Longrightarrow> pool_ok st"
  by (simp add: pool_ok_def)

lemma pool_ok_synced: "pool_ok st \<Longrightarrow> textureUnits st = map unit_of (textures st)"
  unfolding pool_ok_def by blast

lemma pool_ok_distinct: "pool_ok st \<Longrightarrow> distinct (map snd (textureUnits st))"
  unfolding pool_ok_def by blast

lemma pool_ok_console:
  assumes "pool_ok st"
  shows "pool_ok (log entry st)"
proof (rule pool_okI)
  show "textureUnits (log entry st) = map unit_of (textures (log entry st))"
    using pool_ok_synced [OF assms] by (simp add: log_def)
  show "distinct (map snd (textureUnits (log entry st)))"
    using pool_ok_distinct [OF assms] by (simp add: log_def)
qed

lemma remove_textures_ok:
  "pool_ok st \<Longrightarrow> pool_ok (snd (remove_textures tus ts (g, st)))"
proof (induction ts arbitrary: g st)
  case Nil
  then show ?case by simp
next
  case (Cons entry ts)
  obtain name info where entry: "entry = (name, info)" by (cases entry) auto
  let ?st = "st\<lparr>textures := AList.delete name (textures st),
                 textureUnits := AList.delete name (textureUnits st)\<rparr>"
  have "textureUnits ?st = map unit_of (textures ?st)"
    using pool_ok_synced [OF Cons.prems] by (simp add: map_unit_of_delete)
  moreover have "distinct (map snd (textureUnits ?st))"
    using pool_ok_distinct [OF Cons.prems] by (simp add: distinct_snd_delete)
  ultimately have "pool_ok ?st" by (rule pool_okI)
  then show ?case
    unfolding entry using Cons.prems by (simp add: Cons.IH)
qed

lemma create_or_update_ok:
  assumes ok: "pool_ok st"
  shows "pool_ok (snd (create_or_update d name (v, opts) (g, st)))"
proof (cases "isTextureSourceReady d v")
  case False
  then show ?thesis using pool_ok_console [OF ok] by (simp add: create_or_update_def)
next
  case True
  note synced = pool_ok_synced [OF ok] and dist = pool_ok_distinct [OF ok]
  show ?thesis
  proof (cases "map_of (textures st) name")
    case (Some info)
    have "map_of (textureUnits st) name = Some (unit info)"
      unfolding synced using Some by (simp add: map_of_unit_of)
    then have triv: "AList.update name (unit info) (textureUnits st) = textureUnits st"
      by (rule update_triv)
    let ?st = "st\<lparr>textures := AList.update name (info\<lparr>source := v\<rparr>) (textures st)\<rparr>"
    have "map unit_of (textures ?st) = AList.update name (unit info) (map unit_of (textures st))"
      by (simp add: map_unit_of_update)
    then have "textureUnits ?st = map unit_of (textures ?st)"
      using triv synced by simp
    moreover have "distinct (map snd (textureUnits ?st))" using dist by simp
    ultimately have "pool_ok ?st" by (rule pool_okI)
    then show ?thesis
      using True Some by (simp add: create_or_update_def)
  next
    case None
    then have "name \<notin> fst ` set (textures st)" by (simp add: map_of_eq_None_iff)
    then have fresh: "name \<notin> fst ` set (textureUnits st)"
      unfolding synced by (simp add: fst_unit_of)
    show ?thesis
    proof (cases "getAvailableUnit g (textureUnits st)")
      case (Inl e)
      then show ?thesis
        using True None pool_ok_console [OF ok] by (simp add: create_or_update_def)
    next
      case (Inr u)
      then have free: "u \<notin> snd ` set (textureUnits st)"
        by (simp add: getAvailableUnit_Inr)
      show ?thesis
      proof (cases "createTexture g v opts u")
        case (Inl e)
        then show ?thesis
          using True None Inr pool_ok_console [OF ok] by (simp add: create_or_update_def)
      next
        case created: (Inr r)
        obtain tex g' where r: "r = (tex, g')" by (cases r) auto
        let ?st = "st\<lparr>textures := AList.update name \<lparr>texture = tex, source = v, unit = u\<rparr>
                                      (textures st),
                       textureUnits := AList.update name u (textureUnits st)\<rparr>"
        have "map unit_of (textures ?st) = AList.update name u (map unit_of (textures st))"
          by (simp add: map_unit_of_update)
        then have "textureUnits ?st = map unit_of (textures ?st)"
          using synced by simp
        moreover have "distinct (map snd (textureUnits ?st))"
          using dist fresh free by (simp add: update_fresh)
        ultimately have "pool_ok ?st" by (rule pool_okI)
        then show ?thesis
          using True None Inr created r by (simp add: create_or_update_def)
      qed
    qed
  qed
qed

lemma create_or_update_all_ok:
  "pool_ok st \<Longrightarrow> pool_ok (snd (create_or_update_all d tus (g, st)))"
proof (induction tus arbitrary: g st)
  case Nil
  then show ?case by simp
next
  case (Cons entry tus)
  obtain name v opts where entry: "entry = (name, v, opts)" by (cases entry) auto
  obtain g1 st1 where s: "create_or_update d name (v, opts) (g, st) = (g1, st1)"
    by (cases "create_or_update d name (v, opts) (g, st)") auto
  have "pool_ok st1"
    using create_or_update_ok [OF Cons.prems, of d name v opts g] s by simp
  then show ?case unfolding entry by (simp add: s Cons.IH)
qed

lemma useTextures_effect_ok:
  assumes ok: "pool_ok st"
  shows "pool_ok (snd (useTextures_effect d gl_opt tus st))"
proof (cases gl_opt)
  case None
  then show ?thesis using ok by (simp add: useTextures_effect_def)
next
  case (Some g)
  show ?thesis
  proof (cases tus)
    case None
    then show ?thesis using ok Some by (simp add: useTextures_effect_def)
  next
    case tu: (Some m)
    obtain g1 st1 where r: "remove_textures m (textures st) (g, st) = (g1, st1)"
      by (cases "remove_textures m (textures st) (g, st)") auto
    obtain g2 st2 where c: "create_or_update_all d m (g1, st1) = (g2, st2)"
      by (cases "create_or_update_all d m (g1, st1)") auto
    have "pool_ok st1" using remove_textures_ok [OF ok, of m "textures st" g] r by simp
    then have "pool_ok st2"
      using create_or_update_all_ok [of st1 d m g1] c by simp
    then show ?thesis
      using Some tu r c by (simp add: useTextures_effect_def)
  qed
qed

lemma pool_ok_units:
  assumes "pool_ok st"
  shows "snd ` set (textureUnits st) = unit ` snd ` set (textures st)"
  unfolding pool_ok_synced [OF assms] by (force simp: unit_of_def)

lemma pool_ok_keys:
  assumes "pool_ok st"
  shows "fst ` set (textureUnits st) = fst ` set (textures st)"
  unfolding pool_ok_synced [OF assms] by (simp add: fst_unit_of)

section \<open>Frame scheduler and resize coordinator: proofs\<close>

lemma calls_issue: "calls (issue cs g) = calls g @ cs"
  by (simp add: issue_def)

lemma issue_issue: "issue cs (issue ds g) = issue (ds @ cs) g"
  by (simp add: issue_def)

lemma issue_Nil: "issue [] g = g"
  by (simp add: issue_def)

lemma draws_append: "draws (xs @ ys) = draws xs + draws ys"
  by (simp add: draws_def)

lemma uploads_append: "uploads s (xs @ ys) = uploads s xs + uploads s ys"
  by (simp add: uploads_def)

lemma viewports_append: "viewports (xs @ ys) = viewports xs @ viewports ys"
  by (simp add: viewports_def)

lemma when_set_quiet:
  assumes "\<And>v. call v \<noteq> DrawArrays" "\<And>v. \<not> is_viewport (call v)" "\<And>v. call v \<noteq> TexImage2D s"
  shows "draws (when_set field call) = 0 \<and> viewports (when_set field call) = []
         \<and> uploads s (when_set field call) = 0"
  using assms by (cases field) (simp_all add: when_set_def draws_def viewports_def uploads_def)

lemma updateTexture_calls_quiet:
  "draws (updateTexture_calls t v opts u) = 0 \<and> viewports (updateTexture_calls t v opts u) = []
   \<and> uploads s (updateTexture_calls t v opts u) = (if s = v then 1 else 0)"
proof -
  let ?o = "or_default opts empty_options"
  let ?a = "when_set (wrapS ?o) (\<lambda>v. TexParameteri TEXTURE_WRAP_S (Wrap v))"
  let ?b = "when_set (wrapT ?o) (\<lambda>v. TexParameteri TEXTURE_WRAP_T (Wrap v))"
  let ?c = "when_set (minFilter ?o) (\<lambda>v. TexParameteri TEXTURE_MIN_FILTER (Filter v))"
  let ?d = "when_set (magFilter ?o) (\<lambda>v. TexParameteri TEXTURE_MAG_FILTER (Filter v))"
  let ?e = "when_set (flipY ?o) PixelStorei_UNPACK_FLIP_Y"
  let ?m = "case minFilter ?o of None \<Rightarrow> []
            | Some f \<Rightarrow> if f \<in> set mipmap_filters then [GenerateMipmap] else []"
  let ?cs = "[ActiveTexture u, BindTexture t] @ ?a @ ?b @ ?c @ ?d @ ?e @ [TexImage2D v] @ ?m"
  have eq: "updateTexture_calls t v opts u = ?cs"
    by (simp add: updateTexture_calls_def Let_def)
  have m: "draws ?m = 0 \<and> viewports ?m = [] \<and> uploads s ?m = 0"
    by (simp add: draws_def viewports_def uploads_def split: option.splits)
  have q: "draws ?a = 0 \<and> viewports ?a = [] \<and> uploads s ?a = 0"
    "draws ?b = 0 \<and> viewports ?b = [] \<and> uploads s ?b = 0"
    "draws ?c = 0 \<and> viewports ?c = [] \<and> uploads s ?c = 0"
    "draws ?d = 0 \<and> viewports ?d = [] \<and> uploads s ?d = 0"
    "draws ?e = 0 \<and> viewports ?e = [] \<and> uploads s ?e = 0"
    by (rule when_set_quiet; simp)+
  have h: "draws [ActiveTexture u, BindTexture t] = 0"
    "viewports [ActiveTexture u, BindTexture t] = []"
    "draws [TexImage2D v] = 0" "viewports [TexImage2D v] = []"
    by (simp_all add: draws_def viewports_def)
  have hs: "uploads s [ActiveTexture u, BindTexture t] = 0"
    "uploads s [TexImage2D v] = (if s = v then 1 else 0)"
    by (simp_all add: uploads_def)
  have "draws ?cs = 0"
    unfolding draws_append using m q h by simp
  moreover have "viewports ?cs = []"
    unfolding viewports_append using m q h by simp
  moreover have "uploads s ?cs = (if s = v then 1 else 0)"
    unfolding uploads_append using m q hs by simp
  ultimately show ?thesis unfolding eq by blast
qed

lemma refresh_step:
  "(case map_of U name of
      Some (TextureUniform (HTMLVideoElement i) opts) \<Rightarrow>
        updateTexture g (texture info) (HTMLVideoElement i) opts (unit info)
    | Some (TextureUniform (HTMLCanvasElement i) opts) \<Rightarrow>
        updateTexture g (texture info) (HTMLCanvasElement i) opts (unit info)
    | _ \<Rightarrow> g) = issue (refresh_of U (name, info)) g"
proof (cases "map_of U name")
  case None
  then show ?thesis by (simp add: refresh_of_def issue_Nil)
next
  case (Some uv)
  show ?thesis
  proof (cases uv)
    case (NumericUniform t v)
    then show ?thesis using Some by (simp add: refresh_of_def issue_Nil)
  next
    case (TextureUniform v opts)
    then show ?thesis
      using Some by (cases v) (simp_all add: refresh_of_def issue_Nil updateTexture_def)
  qed
qed

lemma refresh_dynamic_eq:
  "refresh_dynamic U ts g = issue (concat (map (refresh_of U) ts)) g"
proof (induction ts arbitrary: g)
  case Nil
  then show ?case by (simp add: issue_Nil)
next
  case (Cons entry ts)
  obtain name info where entry: "entry = (name, info)" by (cases entry) auto
  show ?case
    unfolding entry by (simp only: refresh_dynamic.simps refresh_step Cons.IH)
      (simp add: issue_issue)
qed

lemma refresh_of_quiet:
  "draws (refresh_of U binding) = 0 \<and> viewports (refresh_of U binding) = []
   \<and> uploads s (refresh_of U binding) = (if is_dynamic s \<and> bound_to s U binding then 1 else 0)"
proof (cases "map_of U (fst binding)")
  case None
  then show ?thesis by (simp add: refresh_of_def bound_to_def draws_def viewports_def uploads_def)
next
  case (Some uv)
  show ?thesis
  proof (cases uv)
    case (NumericUniform t v)
    then show ?thesis
      using Some by (simp add: refresh_of_def bound_to_def draws_def viewports_def uploads_def)
  next
    case (TextureUniform v opts)
    show ?thesis
    proof (cases "is_dynamic v")
      case True
      then show ?thesis
        using Some TextureUniform
          updateTexture_calls_quiet [of "texture (snd binding)" v opts "unit (snd binding)" s]
        by (auto simp: refresh_of_def bound_to_def)
    next
      case False
      then show ?thesis
        using Some TextureUniform
        by (auto simp: refresh_of_def bound_to_def draws_def viewports_def uploads_def)
    qed
  qed
qed

lemma refresh_quiet:
  "draws (concat (map (refresh_of U) ts)) = 0 \<and> viewports (concat (map (refresh_of U) ts)) = []
   \<and> uploads s (concat (map (refresh_of U) ts)) =
       (if is_dynamic s then length (filter (bound_to s U) ts) else 0)"
proof (induction ts)
  case Nil
  then show ?case by (simp add: draws_def viewports_def uploads_def)
next
  case (Cons binding ts)
  then show ?case
    using refresh_of_quiet [of U binding s]
    by (simp add: draws_append viewports_append uploads_append)
qed

lemma apply_uniform_eq:
  "apply_uniform L U units key (g, out) =
     (issue (applied_call L U units key) g, out @ apply_error L U units key)"
  by (simp add: apply_uniform_def applied_call_def apply_error_def setUniform_def issue_Nil
      split: option.splits sum.splits)

lemma apply_changed_eq:
  "apply_changed L U units keys (g, out) =
     (issue (concat (map (applied_call L U units) keys)) g,
      out @ concat (map (apply_error L U units) keys))"
proof (induction keys arbitrary: g out)
  case Nil
  then show ?case by (simp add: issue_Nil)
next
  case (Cons key keys)
  show ?case by (simp add: apply_uniform_eq Cons.IH issue_issue)
qed

lemma setNumeric_kind:
  "setNumeric loc t v = Inr c \<Longrightarrow> c \<noteq> DrawArrays \<and> \<not> is_viewport c \<and> c \<noteq> TexImage2D s"
  by (cases t) (auto split: sum.splits)

lemma uniform_call_kind:
  "uniform_call loc u tu = Inr c \<Longrightarrow> c \<noteq> DrawArrays \<and> \<not> is_viewport c \<and> c \<noteq> TexImage2D s"
  by (auto simp: uniform_call_def split: option.splits UniformValue.splits dest: setNumeric_kind)

lemma applied_call_quiet:
  "draws (applied_call L U units key) = 0 \<and> viewports (applied_call L U units key) = []
   \<and> uploads s (applied_call L U units key) = 0"
  using uniform_call_kind [of _ "map_of U key" "map_of units key" _ s]
  by (auto simp: applied_call_def draws_def viewports_def uploads_def
      split: option.splits sum.splits)

lemma applied_calls_quiet:
  "draws (concat (map (applied_call L U units) keys)) = 0
   \<and> viewports (concat (map (applied_call L U units) keys)) = []
   \<and> uploads s (concat (map (applied_call L U units) keys)) = 0"
proof (induction keys)
  case Nil
  then show ?case by (simp add: draws_def viewports_def uploads_def)
next
  case (Cons key keys)
  then show ?case
    using applied_call_quiet [of L U units key s]
    by (simp add: draws_append viewports_append uploads_append)
qed

lemma set_builtins_quiet:
  "draws (set_builtins opts prog cv time mouse) = 0
   \<and> viewports (set_builtins opts prog cv time mouse) = []
   \<and> uploads s (set_builtins opts prog cv time mouse) = 0"
  by (simp add: set_builtins_def draws_def viewports_def uploads_def split: option.splits)

text \<open>The calls that one frame adds, and what the frame leaves in the component.\<close>

lemma renderLoop_running:
  assumes cv: "canvasRef c = Some cv" and p: "programInfo c = Some p"
  shows "gl_calls (renderLoop time now c) =
           gl_calls c @ [ClearColor, Clear]
           @ set_builtins (options c) (program p) cv time (mousePosition c)
           @ concat (map (refresh_of (uniformsRef c)) (textures (hook c)))
           @ concat (map (applied_call (uniformLocations p) (uniformsRef c)
                           (textureUnits (hook c))) (changedUniformsRef c))
           @ [DrawArrays]
         \<and> console (hook (renderLoop time now c)) =
             console (hook c)
             @ concat (map (apply_error (uniformLocations p) (uniformsRef c)
                             (textureUnits (hook c))) (changedUniformsRef c))"
  using cv p
  by (simp add: renderLoop_def gl_calls_def Let_def apply_changed_eq refresh_dynamic_eq
      calls_issue)

lemma renderLoop_keeps:
  "canvasRef (renderLoop time now c) = canvasRef c
   \<and> uniformsRef (renderLoop time now c) = uniformsRef c
   \<and> textures (hook (renderLoop time now c)) = textures (hook c)
   \<and> textureUnits (hook (renderLoop time now c)) = textureUnits (hook c)
   \<and> (programInfo (renderLoop time now c) = None \<longleftrightarrow> programInfo c = None)"
  by (simp add: renderLoop_def Let_def split: option.splits prod.splits)

lemma renderLoop_clears:
  "canvasRef c \<noteq> None \<Longrightarrow> programInfo c \<noteq> None \<Longrightarrow>
   changedUniformsRef (renderLoop time now c) = []"
  by (auto simp: renderLoop_def Let_def split: option.splits prod.splits)

lemma renderLoop_draws:
  assumes "canvasRef c \<noteq> None" "programInfo c \<noteq> None"
  shows "draws (gl_calls (renderLoop time now c)) = Suc (draws (gl_calls c))
         \<and> viewports (gl_calls (renderLoop time now c)) = viewports (gl_calls c)"
proof -
  from assms obtain cv p where cv: "canvasRef c = Some cv" and p: "programInfo c = Some p"
    by auto
  let ?B = "set_builtins (options c) (program p) cv time (mousePosition c)"
  let ?R = "concat (map (refresh_of (uniformsRef c)) (textures (hook c)))"
  let ?A = "concat (map (applied_call (uniformLocations p) (uniformsRef c)
                          (textureUnits (hook c))) (changedUniformsRef c))"
  have calls: "gl_calls (renderLoop time now c) =
                 gl_calls c @ [ClearColor, Clear] @ ?B @ ?R @ ?A @ [DrawArrays]"
    using renderLoop_running [OF cv p, of time now] by blast
  have h: "draws [ClearColor, Clear] = 0" "viewports [ClearColor, Clear] = []"
    "draws [DrawArrays] = 1" "viewports [DrawArrays] = []"
    by (simp_all add: draws_def viewports_def)
  have q: "draws ?B = 0" "viewports ?B = []" "draws ?R = 0" "viewports ?R = []"
    "draws ?A = 0" "viewports ?A = []"
    using set_builtins_quiet [of "options c" "program p" cv time "mousePosition c" "ImageBitmap 0"]
      refresh_quiet [of "uniformsRef c" "textures (hook c)" "ImageBitmap 0"]
      applied_calls_quiet [of "uniformLocations p" "uniformsRef c" "textureUnits (hook c)"
        "changedUniformsRef c" "ImageBitmap 0"]
    by blast+
  show ?thesis
    unfolding calls draws_append viewports_append using h q by simp
qed

lemma renderLoop_uploads:
  assumes "canvasRef c \<noteq> None" "programInfo c \<noteq> None"
  shows "uploads s (gl_calls (renderLoop time now c)) =
           uploads s (gl_calls c) + (if is_dynamic s then bindings_of s c else 0)"
proof -
  from assms obtain cv p where cv: "canvasRef c = Some cv" and p: "programInfo c = Some p"
    by auto
  let ?B = "set_builtins (options c) (program p) cv time (mousePosition c)"
  let ?R = "concat (map (refresh_of (uniformsRef c)) (textures (hook c)))"
  let ?A = "concat (map (applied_call (uniformLocations p) (uniformsRef c)
                          (textureUnits (hook c))) (changedUniformsRef c))"
  have calls: "gl_calls (renderLoop time now c) =
                 gl_calls c @ [ClearColor, Clear] @ ?B @ ?R @ ?A @ [DrawArrays]"
    using renderLoop_running [OF cv p, of time now] by blast
  have h: "uploads s [ClearColor, Clear] = 0" "uploads s [DrawArrays] = 0"
    by (simp_all add: uploads_def)
  have q: "uploads s ?B = 0" "uploads s ?A = 0"
    "uploads s ?R = (if is_dynamic s then bindings_of s c else 0)"
    using set_builtins_quiet [of "options c" "program p" cv time "mousePosition c" s]
      refresh_quiet [of "uniformsRef c" "textures (hook c)" s]
      applied_calls_quiet [of "uniformLocations p" "uniformsRef c" "textureUnits (hook c)"
        "changedUniformsRef c" s]
    unfolding bindings_of_def by blast+
  show ?thesis
    unfolding calls uploads_append using h q by simp
qed

lemma bindings_of_renderLoop: "bindings_of s (renderLoop time now c) = bindings_of s c"
  using renderLoop_keeps [of time now c] by (simp add: bindings_of_def)

lemma ticks_uploads:
  assumes "canvasRef c \<noteq> None" "programInfo c \<noteq> None"
  shows "uploads s (gl_calls (ticks ts c)) =
           uploads s (gl_calls c) + (if is_dynamic s then length ts * bindings_of s c else 0)"
  using assms
proof (induction ts arbitrary: c)
  case Nil
  then show ?case by simp
next
  case (Cons t ts)
  obtain time now where t: "t = (time, now)" by (cases t) auto
  have keep: "canvasRef (renderLoop time now c) \<noteq> None" "programInfo (renderLoop time now c) \<noteq> None"
    using Cons.prems renderLoop_keeps [of time now c] by auto
  show ?case
    unfolding t
    using Cons.IH [OF keep] renderLoop_uploads [OF Cons.prems, of s time now]
    by (simp add: bindings_of_renderLoop)
qed

section \<open>Texture resource manager: main results\<close>

lemma remove_textures_lost:
  "contextLost (fst (remove_textures tus ts (g, st))) = contextLost g"
proof (induction ts arbitrary: g st)
  case Nil
  then show ?case by simp
next
  case (Cons entry ts)
  obtain name info where entry: "entry = (name, info)" by (cases entry) auto
  show ?case unfolding entry by (simp add: Cons.IH deleteTexture_def issue_def)
qed

lemma manage_textures_keeps:
  "canvasRef (manage_textures d uniforms c) = canvasRef c
   \<and> (programInfo (manage_textures d uniforms c) = None \<longleftrightarrow> programInfo c = None)"
  by (auto simp: manage_textures_def split: prod.splits option.splits)

text \<open>
  C3. \<open>getAvailableUnit\<close> returns \<open>i\<close> exactly when \<open>i\<close> is the smallest number below
  \<open>maxUnits\<close> that no entry of the name-to-unit map holds. The map lists the units of the
  live bindings: that holds of the empty pool and is kept by every run of the effect, so
  the unit returned is the smallest one that no live binding holds. Creating the textures
  of \<open>N\<close> ready uniforms with distinct names from an empty pool, \<open>N\<close> at most \<open>maxUnits\<close>,
  gives them the units \<open>0, ..., N - 1\<close> in their order of appearance. After the removal
  loop has removed the binding \<open>old\<close> that held \<open>k\<close>, with every smaller index held by a
  name that stays, the next creation receives \<open>k\<close>.
\<close>

theorem texture_unit_allocation:
  "(getAvailableUnit g units = Inr i \<longleftrightarrow>
      i < MAX_COMBINED_TEXTURE_IMAGE_UNITS g \<and> i \<notin> snd ` set units
      \<and> (\<forall>j<i. j \<in> snd ` set units))
   \<and> pool_ok \<lparr>textures = [], textureUnits = [], console = out\<rparr>
   \<and> (pool_ok st \<longrightarrow>
        pool_ok (snd (useTextures_effect d some_gl some_tus st))
        \<and> (getAvailableUnit g (textureUnits st) = Inr m \<longrightarrow>
             m \<notin> unit ` snd ` set (textures st)
             \<and> (\<forall>j<m. j \<in> unit ` snd ` set (textures st))))
   \<and> (distinct (map fst tus) \<and> (\<forall>(name, v, opts) \<in> set tus. isTextureSourceReady d v)
       \<and> length tus \<le> MAX_COMBINED_TEXTURE_IMAGE_UNITS g \<and> \<not> contextLost g
      \<longrightarrow> textureUnits (snd (useTextures_effect d (Some g) (Some tus)
                                \<lparr>textures = [], textureUnits = [], console = out\<rparr>))
           = zip (map fst tus) [0..<length tus])
   \<and> (pool_ok st \<and> (old, k) \<in> set (textureUnits st) \<and> map_of kept old = None
       \<and> (\<forall>j<k. \<exists>n. (n, j) \<in> set (textureUnits st) \<and> map_of kept n \<noteq> None)
       \<and> k < MAX_COMBINED_TEXTURE_IMAGE_UNITS g \<and> \<not> contextLost g
       \<and> isTextureSourceReady d v'
       \<and> new \<notin> fst ` set (textures (snd (remove_textures kept (textures st) (g, st))))
      \<longrightarrow> map_of (textureUnits (snd (create_or_update d new (v', opts')
                      (remove_textures kept (textures st) (g, st))))) new = Some k)"
proof (intro conjI impI)
  show "getAvailableUnit g units = Inr i \<longleftrightarrow>
      i < MAX_COMBINED_TEXTURE_IMAGE_UNITS g \<and> i \<notin> snd ` set units
      \<and> (\<forall>j<i. j \<in> snd ` set units)"
    by (rule getAvailableUnit_Inr)
next
  show "pool_ok \<lparr>textures = [], textureUnits = [], console = out\<rparr>"
    by (simp add: pool_ok_def)
next
  assume "pool_ok st"
  then show "pool_ok (snd (useTextures_effect d some_gl some_tus st))"
    by (rule useTextures_effect_ok)
next
  assume ok: "pool_ok st" and u: "getAvailableUnit g (textureUnits st) = Inr m"
  from u have "m \<notin> snd ` set (textureUnits st) \<and> (\<forall>j<m. j \<in> snd ` set (textureUnits st))"
    by (simp add: getAvailableUnit_Inr)
  then show "m \<notin> unit ` snd ` set (textures st)" and "\<forall>j<m. j \<in> unit ` snd ` set (textures st)"
    unfolding pool_ok_units [OF ok] by simp_all
next
  assume a: "distinct (map fst tus) \<and> (\<forall>(name, v, opts) \<in> set tus. isTextureSourceReady d v)
       \<and> length tus \<le> MAX_COMBINED_TEXTURE_IMAGE_UNITS g \<and> \<not> contextLost g"
  let ?st = "\<lparr>textures = [], textureUnits = [], console = out\<rparr>"
  have "textureUnits (snd (create_or_update_all d tus (g, ?st))) =
          textureUnits ?st @ zip (map fst tus) [0..<0 + length tus]"
    using a by (intro create_all_fresh) auto
  then show "textureUnits (snd (useTextures_effect d (Some g) (Some tus) ?st))
               = zip (map fst tus) [0..<length tus]"
    by (auto simp: useTextures_effect_def split: prod.splits)
next
  assume a: "pool_ok st \<and> (old, k) \<in> set (textureUnits st) \<and> map_of kept old = None
       \<and> (\<forall>j<k. \<exists>n. (n, j) \<in> set (textureUnits st) \<and> map_of kept n \<noteq> None)
       \<and> k < MAX_COMBINED_TEXTURE_IMAGE_UNITS g \<and> \<not> contextLost g
       \<and> isTextureSourceReady d v'
       \<and> new \<notin> fst ` set (textures (snd (remove_textures kept (textures st) (g, st))))"
  then have ok: "pool_ok st" and held: "(old, k) \<in> set (textureUnits st)" by simp_all
  have live: "old \<in> fst ` set (textures st)"
    using held pool_ok_keys [OF ok] by force
  obtain g1 st1 where r: "remove_textures kept (textures st) (g, st) = (g1, st1)"
    by (cases "remove_textures kept (textures st) (g, st)") auto
  have free: "getAvailableUnit g1 (textureUnits st1) = Inr k"
    using removal_frees_unit [of st old k kept g] pool_ok_distinct [OF ok] live a r by simp
  have ctx: "\<not> contextLost g1"
    using remove_textures_lost [of kept "textures st" g st] a r by simp
  have fresh: "new \<notin> fst ` set (textures st1)" and ready: "isTextureSourceReady d v'"
    using a r by simp_all
  from create_step_fresh [where name = new and opts = opts', OF ready fresh free ctx]
  show "map_of (textureUnits (snd (create_or_update d new (v', opts')
                      (remove_textures kept (textures st) (g, st))))) new = Some k"
    unfolding r by (auto simp: update_conv')
qed

theorem texture_unit_allocation_witness:
  "getAvailableUnit (fresh_gl 8) [(''u_tex1'', 0), (''u_tex3'', 2)] = Inr 1
   \<and> textureUnits (snd (useTextures_effect all_ready (Some (fresh_gl 8))
        (Some [(''u_tex1'', HTMLImageElement 1, None), (''u_tex2'', HTMLImageElement 2, None),
               (''u_tex3'', HTMLImageElement 3, None)])
        \<lparr>textures = [], textureUnits = [], console = []\<rparr>))
     = [(''u_tex1'', 0), (''u_tex2'', 1), (''u_tex3'', 2)]
   \<and> pool_ok
       \<lparr>textures =
          [(''u_tex1'', \<lparr>texture = 0, source = HTMLImageElement 1, unit = 0\<rparr>),
           (''u_tex2'', \<lparr>texture = 1, source = HTMLImageElement 2, unit = 1\<rparr>)],
        textureUnits = [(''u_tex1'', 0), (''u_tex2'', 1)], console = []\<rparr>
   \<and> map_of (textureUnits (snd (create_or_update all_ready ''u_tex3'' (HTMLImageElement 3, None)
        (remove_textures [(''u_tex1'', HTMLImageElement 1, None)]
           [(''u_tex1'', \<lparr>texture = 0, source = HTMLImageElement 1, unit = 0\<rparr>),
            (''u_tex2'', \<lparr>texture = 1, source = HTMLImageElement 2, unit = 1\<rparr>)]
           (fresh_gl 8,
            \<lparr>textures =
               [(''u_tex1'', \<lparr>texture = 0, source = HTMLImageElement 1, unit = 0\<rparr>),
                (''u_tex2'', \<lparr>texture = 1, source = HTMLImageElement 2, unit = 1\<rparr>)],
             textureUnits = [(''u_tex1'', 0), (''u_tex2'', 1)], console = []\<rparr>)))))
       ''u_tex3'' = Some 1"
  using texture_unit_allocation
    [where g = "fresh_gl 8" and units = "[(''u_tex1'', 0), (''u_tex3'', 2)]" and i = 1
       and tus = "[(''u_tex1'', HTMLImageElement 1, None), (''u_tex2'', HTMLImageElement 2, None),
                   (''u_tex3'', HTMLImageElement 3, None)]"
       and d = all_ready and out = "[]"
       and st = "\<lparr>textures =
                    [(''u_tex1'', \<lparr>texture = 0, source = HTMLImageElement 1, unit = 0\<rparr>),
                     (''u_tex2'', \<lparr>texture = 1, source = HTMLImageElement 2, unit = 1\<rparr>)],
                  textureUnits = [(''u_tex1'', 0), (''u_tex2'', 1)], console = []\<rparr>"
       and old = "''u_tex2''" and k = 1
       and kept = "[(''u_tex1'', HTMLImageElement 1, None)]"
       and v' = "HTMLImageElement 3" and opts' = None and new = "''u_tex3''"
       and some_gl = None and some_tus = None and m = 2]
  by (simp add: fresh_gl_def all_ready_def deleteTexture_def issue_def pool_ok_def unit_of_def)

text \<open>
  C4. When the texture of a ready uniform is to be created and every index below
  \<open>maxUnits\<close> is held, \<open>getAvailableUnit\<close> throws, the exception is caught and logged, the
  bindings and the name-to-unit map stay as they were, the loop goes on with the
  remaining uniforms, and the next frame still draws.
\<close>

theorem pool_exhaustion:
  assumes ready: "isTextureSourceReady d v"
    and fresh: "map_of (textures st) name = None"
    and full: "\<forall>i<MAX_COMBINED_TEXTURE_IMAGE_UNITS g. i \<in> snd ` set (textureUnits st)"
  shows "getAvailableUnit g (textureUnits st) =
           Inl (NoAvailableTextureUnits (MAX_COMBINED_TEXTURE_IMAGE_UNITS g))
         \<and> create_or_update d name (v, opts) (g, st) =
             (g, log (ErrorFailedToCreateTexture name
                        (NoAvailableTextureUnits (MAX_COMBINED_TEXTURE_IMAGE_UNITS g))) st)
         \<and> textures (snd (create_or_update d name (v, opts) (g, st))) = textures st
         \<and> textureUnits (snd (create_or_update d name (v, opts) (g, st))) = textureUnits st
         \<and> create_or_update_all d ((name, v, opts) # rest) (g, st) =
             create_or_update_all d rest
               (g, log (ErrorFailedToCreateTexture name
                          (NoAvailableTextureUnits (MAX_COMBINED_TEXTURE_IMAGE_UNITS g))) st)
         \<and> (canvasRef c \<noteq> None \<and> programInfo c \<noteq> None \<longrightarrow>
              draws (gl_calls (renderLoop time now (manage_textures d uniforms c))) =
                Suc (draws (gl_calls (manage_textures d uniforms c))))"
proof -
  have unit: "getAvailableUnit g (textureUnits st) =
                Inl (NoAvailableTextureUnits (MAX_COMBINED_TEXTURE_IMAGE_UNITS g))"
    using full by (simp add: getAvailableUnit_Inl)
  have step: "create_or_update d name (v, opts) (g, st) =
                (g, log (ErrorFailedToCreateTexture name
                           (NoAvailableTextureUnits (MAX_COMBINED_TEXTURE_IMAGE_UNITS g))) st)"
    using ready fresh unit by (simp add: create_or_update_def)
  have frame: "draws (gl_calls (renderLoop time now (manage_textures d uniforms c))) =
                 Suc (draws (gl_calls (manage_textures d uniforms c)))"
    if "canvasRef c \<noteq> None \<and> programInfo c \<noteq> None"
    using that manage_textures_keeps [of d uniforms c]
      renderLoop_draws [of "manage_textures d uniforms c" time now]
    by simp
  show ?thesis
    using unit step frame by (simp add: log_def)
qed

theorem pool_exhaustion_witness:
  "create_or_update all_ready ''u_c'' (HTMLImageElement 3, None)
     (fresh_gl 2,
      \<lparr>textures =
         [(''u_a'', \<lparr>texture = 0, source = HTMLImageElement 1, unit = 0\<rparr>),
          (''u_b'', \<lparr>texture = 1, source = HTMLImageElement 2, unit = 1\<rparr>)],
       textureUnits = [(''u_a'', 0), (''u_b'', 1)], console = []\<rparr>)
   = (fresh_gl 2,
      \<lparr>textures =
         [(''u_a'', \<lparr>texture = 0, source = HTMLImageElement 1, unit = 0\<rparr>),
          (''u_b'', \<lparr>texture = 1, source = HTMLImageElement 2, unit = 1\<rparr>)],
       textureUnits = [(''u_a'', 0), (''u_b'', 1)],
       console = [ErrorFailedToCreateTexture ''u_c'' (NoAvailableTextureUnits 2)]\<rparr>)
   \<and> draws (gl_calls (renderLoop 16 17 (manage_textures all_ready [] (mounted True)))) =
       Suc (draws (gl_calls (manage_textures all_ready [] (mounted True))))"
proof -
  let ?st = "\<lparr>textures =
         [(''u_a'', \<lparr>texture = 0, source = HTMLImageElement 1, unit = 0\<rparr>),
          (''u_b'', \<lparr>texture = 1, source = HTMLImageElement 2, unit = 1\<rparr>)],
       textureUnits = [(''u_a'', 0), (''u_b'', 1)], console = []\<rparr>"
  have ready: "isTextureSourceReady all_ready (HTMLImageElement 3)"
    by (simp add: all_ready_def)
  have fresh: "map_of (textures ?st) ''u_c'' = None" by simp
  have full: "\<forall>i<MAX_COMBINED_TEXTURE_IMAGE_UNITS (fresh_gl 2). i \<in> snd ` set (textureUnits ?st)"
    by (auto simp: fresh_gl_def less_Suc_eq numeral_2_eq_2)
  have present: "canvasRef (mounted True) \<noteq> None \<and> programInfo (mounted True) \<noteq> None"
    by (simp add: mounted_def)
  show ?thesis
    using pool_exhaustion [OF ready fresh full, where opts = None and rest = "[]"
        and c = "mounted True" and time = 16 and now = 17 and uniforms = "[]"] present
    by (simp add: log_def fresh_gl_def)
qed

section \<open>Frame scheduler and resize coordinator: main results\<close>

lemma bound_to_member:
  "(name, info) \<in> set ts \<Longrightarrow> map_of U name = Some (TextureUniform s opts) \<Longrightarrow>
   0 < length (filter (bound_to s U) ts)"
  by (force simp: bound_to_def length_greater_0_conv filter_empty_conv
      intro!: bexI [where x = "(name, info)"])

lemma concat_map_member:
  "x \<in> set xs \<Longrightarrow> \<exists>before after. concat (map f xs) = before @ f x @ after"
proof -
  assume "x \<in> set xs"
  then obtain ys zs where "xs = ys @ x # zs" by (auto dest: split_list)
  then have "concat (map f xs) = concat (map f ys) @ f x @ concat (map f zs)" by simp
  then show ?thesis by blast
qed

text \<open>
  C5. The calls of a frame of the running component are the clear, the built-in
  uniforms, then for each binding in turn the calls of \<open>updateTexture\<close> on the texture
  and the unit of that binding with the source and the options of its current uniform
  when that source is a live video or a drawable canvas, and nothing for a binding whose
  source is a static image or a decoded bitmap, then the changed uniforms and the draw.
  So the calls of \<open>updateTexture\<close> for a video or canvas binding (its unit made active, its
  texture bound, its source uploaded) lie within the frame. Counted by source, a frame
  adds one upload for each binding of a video or a canvas and none for an image or a
  bitmap; over any number of frames with no update in between, an image is not uploaded
  by the frames at all and a video bound once is uploaded once per frame.
\<close>

theorem dynamic_refresh_per_frame:
  assumes cv: "canvasRef c = Some cv" and p: "programInfo c = Some p"
  shows "frame_calls time now c =
           [ClearColor, Clear]
           @ set_builtins (options c) (program p) cv time (mousePosition c)
           @ concat (map (refresh_of (uniformsRef c)) (textures (hook c)))
           @ concat (map (applied_call (uniformLocations p) (uniformsRef c)
                           (textureUnits (hook c))) (changedUniformsRef c))
           @ [DrawArrays]
         \<and> ((name, info) \<in> set (textures (hook c))
              \<and> map_of (uniformsRef c) name = Some (TextureUniform s opts) \<and> is_dynamic s
            \<longrightarrow> refresh_of (uniformsRef c) (name, info) =
                  updateTexture_calls (texture info) s opts (unit info)
                \<and> (\<exists>before after. frame_calls time now c =
                      before @ updateTexture_calls (texture info) s opts (unit info) @ after)
                \<and> (\<exists>rest. updateTexture_calls (texture info) s opts (unit info) =
                      ActiveTexture (unit info) # BindTexture (texture info) # rest
                      \<and> TexImage2D s \<in> set rest))
         \<and> ((name, info) \<in> set (textures (hook c))
              \<and> map_of (uniformsRef c) name = Some (TextureUniform s opts) \<and> \<not> is_dynamic s
            \<longrightarrow> refresh_of (uniformsRef c) (name, info) = [])
         \<and> uploads s (gl_calls (renderLoop time now c)) =
             uploads s (gl_calls c) + (if is_dynamic s then bindings_of s c else 0)
         \<and> uploads s (gl_calls (ticks ts c)) =
             uploads s (gl_calls c) + (if is_dynamic s then length ts * bindings_of s c else 0)
         \<and> ((name, info) \<in> set (textures (hook c))
              \<and> map_of (uniformsRef c) name = Some (TextureUniform s opts)
            \<longrightarrow> 0 < bindings_of s c)"
proof -
  have present: "canvasRef c \<noteq> None" "programInfo c \<noteq> None" using cv p by simp_all
  have fc: "frame_calls time now c =
           [ClearColor, Clear]
           @ set_builtins (options c) (program p) cv time (mousePosition c)
           @ concat (map (refresh_of (uniformsRef c)) (textures (hook c)))
           @ concat (map (applied_call (uniformLocations p) (uniformsRef c)
                           (textureUnits (hook c))) (changedUniformsRef c))
           @ [DrawArrays]"
    using renderLoop_running [OF cv p, of time now] by (simp add: frame_calls_def)
  have dyn: "refresh_of (uniformsRef c) (name, info) =
               updateTexture_calls (texture info) s opts (unit info)
             \<and> (\<exists>before after. frame_calls time now c =
                   before @ updateTexture_calls (texture info) s opts (unit info) @ after)
             \<and> (\<exists>rest. updateTexture_calls (texture info) s opts (unit info) =
                   ActiveTexture (unit info) # BindTexture (texture info) # rest
                   \<and> TexImage2D s \<in> set rest)"
    if a: "(name, info) \<in> set (textures (hook c))
           \<and> map_of (uniformsRef c) name = Some (TextureUniform s opts) \<and> is_dynamic s"
  proof -
    have r: "refresh_of (uniformsRef c) (name, info) =
               updateTexture_calls (texture info) s opts (unit info)"
      using a by (simp add: refresh_of_def)
    from a concat_map_member [of "(name, info)" "textures (hook c)" "refresh_of (uniformsRef c)"]
    obtain xs ys where
      "concat (map (refresh_of (uniformsRef c)) (textures (hook c))) =
         xs @ refresh_of (uniformsRef c) (name, info) @ ys"
      by blast
    then have "frame_calls time now c =
        ([ClearColor, Clear] @ set_builtins (options c) (program p) cv time (mousePosition c) @ xs)
        @ updateTexture_calls (texture info) s opts (unit info)
        @ (ys @ concat (map (applied_call (uniformLocations p) (uniformsRef c)
                              (textureUnits (hook c))) (changedUniformsRef c)) @ [DrawArrays])"
      unfolding fc r by simp
    then have sub: "\<exists>before after. frame_calls time now c =
        before @ updateTexture_calls (texture info) s opts (unit info) @ after"
      by blast
    have "\<exists>rest. updateTexture_calls (texture info) s opts (unit info) =
            ActiveTexture (unit info) # BindTexture (texture info) # rest
            \<and> TexImage2D s \<in> set rest"
      by (simp add: updateTexture_calls_def Let_def)
    with r sub show ?thesis by blast
  qed
  have stat: "refresh_of (uniformsRef c) (name, info) = []"
    if "(name, info) \<in> set (textures (hook c))
        \<and> map_of (uniformsRef c) name = Some (TextureUniform s opts) \<and> \<not> is_dynamic s"
    using that by (simp add: refresh_of_def)
  have bound: "0 < bindings_of s c"
    if "(name, info) \<in> set (textures (hook c))
        \<and> map_of (uniformsRef c) name = Some (TextureUniform s opts)"
    using that bound_to_member [of name info "textures (hook c)" "uniformsRef c" s opts]
    by (simp add: bindings_of_def)
  show ?thesis
    using fc dyn stat bound renderLoop_uploads [OF present, of s time now]
      ticks_uploads [OF present, of s ts]
    by blast
qed

theorem dynamic_refresh_per_frame_witness:
  "(\<exists>before after. frame_calls 16 17 showing_video =
      before @ [ActiveTexture 1, BindTexture 5, TexImage2D (HTMLVideoElement 1)] @ after)
   \<and> uploads (HTMLVideoElement 1) (gl_calls (ticks (replicate 10 (16, 17)) showing_video)) = 10
   \<and> uploads (HTMLImageElement 2) (gl_calls (ticks (replicate 10 (16, 17)) showing_video)) = 0
   \<and> uploads (HTMLVideoElement 1) (gl_calls (renderLoop 16 17 showing_video)) = 1"
proof -
  let ?cv = "\<lparr>width = 100, height = 100, clientWidth = 400, clientHeight = 300\<rparr>"
  let ?p = "\<lparr>gl = fresh_gl 8,
             program = [(''u_resolution'', 0), (''u_time'', 1), (''u_mouse'', 2), (''u_a'', 3)],
             uniformLocations = [(''u_a'', 3)]\<rparr>"
  let ?info = "\<lparr>texture = 5, source = HTMLVideoElement 1, unit = 1\<rparr>"
  have cv: "canvasRef showing_video = Some ?cv" and p: "programInfo showing_video = Some ?p"
    by (simp_all add: showing_video_def mounted_def)
  have before: "gl_calls showing_video = []"
    by (simp add: showing_video_def mounted_def gl_calls_def fresh_gl_def)
  have bound: "bindings_of (HTMLVideoElement 1) showing_video = 1"
    by (simp add: showing_video_def bindings_of_def bound_to_def)
  have binding: "(''u_video'', ?info) \<in> set (textures (hook showing_video))
      \<and> map_of (uniformsRef showing_video) ''u_video'' = Some (TextureUniform (HTMLVideoElement 1) None)
      \<and> is_dynamic (HTMLVideoElement 1)"
    by (simp add: showing_video_def)
  have calls: "updateTexture_calls (texture ?info) (HTMLVideoElement 1) None (unit ?info) =
                 [ActiveTexture 1, BindTexture 5, TexImage2D (HTMLVideoElement 1)]"
    by (simp add: updateTexture_calls_def or_default_def empty_options_def when_set_def Let_def)
  note video = dynamic_refresh_per_frame [OF cv p, where s = "HTMLVideoElement 1"
      and time = 16 and now = 17 and ts = "replicate 10 (16, 17)" and name = "''u_video''"
      and info = ?info and opts = None]
  note image = dynamic_refresh_per_frame [OF cv p, where s = "HTMLImageElement 2"
      and time = 16 and now = 17 and ts = "replicate 10 (16, 17)"]
  have "\<exists>before after. frame_calls 16 17 showing_video =
      before @ [ActiveTexture 1, BindTexture 5, TexImage2D (HTMLVideoElement 1)] @ after"
    using video binding unfolding calls by blast
  moreover have
    "uploads (HTMLVideoElement 1) (gl_calls (ticks (replicate 10 (16, 17)) showing_video)) = 10"
    "uploads (HTMLVideoElement 1) (gl_calls (renderLoop 16 17 showing_video)) = 1"
    using video before bound by (simp_all add: uploads_def)
  moreover have
    "uploads (HTMLImageElement 2) (gl_calls (ticks (replicate 10 (16, 17)) showing_video)) = 0"
    using image before by (simp add: uploads_def)
  ultimately show ?thesis by blast
qed

text \<open>
  C6 fails on the code. The component hands only the context and the uniforms to the
  texture hook, so the result does not depend on the \<open>options\<close> prop: with
  \<open>defaultTextureOptions\<close> asking for \<open>REPEAT\<close>, \<open>NEAREST\<close> and no flip, a texture uniform
  without options is still created with the built-in \<open>CLAMP_TO_EDGE\<close>, \<open>LINEAR\<close> and flip.
\<close>

theorem defaultTextureOptions_not_applied:
  "gl_calls (manage_textures all_ready
       [(''u_tex'', TextureUniform (HTMLImageElement 7) None)]
       ((mounted True)
          \<lparr>options :=
             Some \<lparr>builtInUniforms = None,
                   defaultTextureOptions =
                     Some \<lparr>wrapS = Some REPEAT, wrapT = Some REPEAT, minFilter = Some NEAREST,
                           magFilter = Some NEAREST, flipY = Some False\<rparr>\<rparr>\<rparr>))
   = [ActiveTexture 0, BindTexture 0,
      TexParameteri TEXTURE_WRAP_S (Wrap CLAMP_TO_EDGE),
      TexParameteri TEXTURE_WRAP_T (Wrap CLAMP_TO_EDGE),
      TexParameteri TEXTURE_MIN_FILTER (Filter LINEAR),
      TexParameteri TEXTURE_MAG_FILTER (Filter LINEAR),
      PixelStorei_UNPACK_FLIP_Y True,
      TexImage2D (HTMLImageElement 7)]"
proof -
  have unit: "getAvailableUnit (fresh_gl 8) [] = Inr 0"
    by (simp add: getAvailableUnit_Inr fresh_gl_def)
  have tus: "textureUniforms (Some [(''u_tex'', TextureUniform (HTMLImageElement 7) None)]) =
               Some [(''u_tex'', HTMLImageElement 7, None)]"
    by (simp add: textureUniforms_def)
  have ready: "isTextureSourceReady all_ready (HTMLImageElement 7)"
    by (simp add: all_ready_def)
  have "create_or_update all_ready ''u_tex'' (HTMLImageElement 7, None) (fresh_gl 8, no_textures) =
          (issue [ActiveTexture 0, BindTexture 0,
                  TexParameteri TEXTURE_WRAP_S (Wrap CLAMP_TO_EDGE),
                  TexParameteri TEXTURE_WRAP_T (Wrap CLAMP_TO_EDGE),
                  TexParameteri TEXTURE_MIN_FILTER (Filter LINEAR),
                  TexParameteri TEXTURE_MAG_FILTER (Filter LINEAR),
                  PixelStorei_UNPACK_FLIP_Y True,
                  TexImage2D (HTMLImageElement 7)] ((fresh_gl 8)\<lparr>nextTexture := Suc 0\<rparr>),
           \<lparr>textures = [(''u_tex'', \<lparr>texture = 0, source = HTMLImageElement 7, unit = 0\<rparr>)],
            textureUnits = [(''u_tex'', 0)], console = []\<rparr>)"
    using unit ready
    by (simp add: create_or_update_def no_textures_def createTexture_def or_default_def
        empty_options_def mipmap_filters_def Let_def)
       (simp add: fresh_gl_def)
  then have "useTextures all_ready (Some (fresh_gl 8))
               (Some [(''u_tex'', TextureUniform (HTMLImageElement 7) None)]) no_textures =
          (Some (issue [ActiveTexture 0, BindTexture 0,
                  TexParameteri TEXTURE_WRAP_S (Wrap CLAMP_TO_EDGE),
                  TexParameteri TEXTURE_WRAP_T (Wrap CLAMP_TO_EDGE),
                  TexParameteri TEXTURE_MIN_FILTER (Filter LINEAR),
                  TexParameteri TEXTURE_MAG_FILTER (Filter LINEAR),
                  PixelStorei_UNPACK_FLIP_Y True,
                  TexImage2D (HTMLImageElement 7)] ((fresh_gl 8)\<lparr>nextTexture := Suc 0\<rparr>)),
           \<lparr>textures = [(''u_tex'', \<lparr>texture = 0, source = HTMLImageElement 7, unit = 0\<rparr>)],
            textureUnits = [(''u_tex'', 0)], console = []\<rparr>)"
    unfolding useTextures_def tus useTextures_effect_def by (simp add: no_textures_def)
  then show ?thesis
    by (simp add: manage_textures_def mounted_def gl_calls_def)
       (simp add: issue_def fresh_gl_def)
qed

text \<open>
  C8, as amended. In a frame of the running component whose program has a location for
  the time uniform, the value pushed there with the built-in uniforms is the timestamp
  of the frame times 0.001, the timestamp in seconds; it is the only value pushed there
  with the built-in uniforms, and no time of a start enters it.
\<close>

theorem u_time_is_frame_timestamp:
  assumes cv: "canvasRef c = Some cv" and p: "programInfo c = Some p"
    and loc: "map_of (program p) (builtin_name (options c) u_time ''u_time'') = Some loc"
  shows "Uniform1f loc (Arg (Number (double_times (Finite time) literal_0_001)))
           \<in> set (frame_calls time now c)
         \<and> (\<forall>v. Uniform1f loc v \<in> set (set_builtins (options c) (program p) cv time
                                          (mousePosition c))
              \<longrightarrow> v = Arg (Number (double_times (Finite time) literal_0_001)))"
proof -
  have fc: "frame_calls time now c =
           [ClearColor, Clear]
           @ set_builtins (options c) (program p) cv time (mousePosition c)
           @ concat (map (refresh_of (uniformsRef c)) (textures (hook c)))
           @ concat (map (applied_call (uniformLocations p) (uniformsRef c)
                           (textureUnits (hook c))) (changedUniformsRef c))
           @ [DrawArrays]"
    using renderLoop_running [OF cv p, of time now] by (simp add: frame_calls_def)
  let ?t = "Uniform1f loc (Arg (Number (double_times (Finite time) literal_0_001)))"
  let ?res = "case map_of (program p) (builtin_name (options c) u_resolution ''u_resolution'') of
                None \<Rightarrow> []
              | Some resLoc \<Rightarrow>
                  [Uniform2f resLoc (num_arg (of_nat (width cv))) (num_arg (of_nat (height cv)))]"
  let ?mouse = "case map_of (program p) (builtin_name (options c) u_mouse ''u_mouse'') of
                  None \<Rightarrow> []
                | Some mouseLocation \<Rightarrow>
                    [Uniform2f mouseLocation (num_arg (fst (mousePosition c)))
                       (num_arg (snd (mousePosition c)))]"
  have b: "set_builtins (options c) (program p) cv time (mousePosition c) = ?res @ [?t] @ ?mouse"
    using loc by (simp add: set_builtins_def)
  have res: "Uniform1f loc v \<notin> set ?res" for v
    by (cases "map_of (program p) (builtin_name (options c) u_resolution ''u_resolution'')")
      simp_all
  have mouse: "Uniform1f loc v \<notin> set ?mouse" for v
    by (cases "map_of (program p) (builtin_name (options c) u_mouse ''u_mouse'')") simp_all
  have only: "v = Arg (Number (double_times (Finite time) literal_0_001))"
    if "Uniform1f loc v \<in> set (?res @ [?t] @ ?mouse)" for v
    using that res [of v] mouse [of v] by simp
  have "?t \<in> set (frame_calls time now c)"
    unfolding fc b by simp
  then show ?thesis
    unfolding b using only by blast
qed

theorem u_time_is_frame_timestamp_witness:
  "Uniform1f 1 (Arg (Number (double_times (Finite 16) literal_0_001)))
     \<in> set (frame_calls 16 17 (mounted True))"
proof -
  let ?cv = "\<lparr>width = 100, height = 100, clientWidth = 400, clientHeight = 300\<rparr>"
  let ?p = "\<lparr>gl = fresh_gl 8,
             program = [(''u_resolution'', 0), (''u_time'', 1), (''u_mouse'', 2), (''u_a'', 3)],
             uniformLocations = [(''u_a'', 3)]\<rparr>"
  have cv: "canvasRef (mounted True) = Some ?cv" and p: "programInfo (mounted True) = Some ?p"
    by (simp_all add: mounted_def)
  have loc: "map_of (program ?p) (builtin_name (options (mounted True)) u_time ''u_time'') = Some 1"
    by (simp add: mounted_def builtin_name_def)
  from u_time_is_frame_timestamp [OF cv p loc, of 16 17] show ?thesis
    by (rule conjunct1)
qed

text \<open>
  C8, as stated, fails: for the component whose render loop began at 3000 ms, the frame
  at 5000 ms pushes 5 for the time uniform; the time elapsed since the loop began is 2
  seconds, and 2 is not pushed.
\<close>

theorem u_time_not_elapsed_counterexample:
  "lastFrameTimeRef (mounted True) = 3000
   \<and> frame_calls 5000 5001 (mounted True)
     = [ClearColor, Clear, Uniform2f 0 (num_arg 100) (num_arg 100), Uniform1f 1 (num_arg 5),
        Uniform2f 2 (num_arg 0) (num_arg 0),
        Uniform1f 3 (Arg (Number (Finite 1))), DrawArrays]
   \<and> spec_elapsed_seconds 3000 5000 = 2
   \<and> Uniform1f 1 (num_arg (spec_elapsed_seconds 3000 5000))
       \<notin> set (frame_calls 5000 5001 (mounted True))"
proof -
  have "frame_calls 5000 5001 (mounted True)
     = [ClearColor, Clear, Uniform2f 0 (num_arg 100) (num_arg 100), Uniform1f 1 (num_arg 5),
        Uniform2f 2 (num_arg 0) (num_arg 0),
        Uniform1f 3 (Arg (Number (Finite 1))), DrawArrays]"
    by (simp add: frame_calls_def renderLoop_def mounted_def gl_calls_def fresh_gl_def
        set_builtins_def builtin_name_def no_textures_def apply_uniform_def setUniform_def
        uniform_call_def issue_def Let_def times_5000_0_001 num_arg_def)
  moreover have "spec_elapsed_seconds 3000 5000 = 2"
    by (simp add: spec_elapsed_seconds_def)
  moreover have "lastFrameTimeRef (mounted True) = 3000"
    by (simp add: mounted_def)
  ultimately show ?thesis by (simp add: num_arg_def)
qed

text \<open>
  C9. The loop over the changed names issues the call of every name that has a location
  and whose \<open>setUniform\<close> does not throw, and writes one console line for every name whose
  \<open>setUniform\<close> throws; a throw leaves the context as it was and the loop goes on. The
  frame then clears the changed set and issues the draw call.
\<close>

theorem uniform_failure_contained:
  "apply_changed L U units keys (g, out) =
     (issue (concat (map (applied_call L U units) keys)) g,
      out @ concat (map (apply_error L U units) keys))
   \<and> (map_of L key = Some loc \<and> uniform_call loc (map_of U key) (map_of units key) = Inl e
      \<longrightarrow> apply_changed L U units (key # rest) (g, out) =
            apply_changed L U units rest (g, out @ [ErrorFailedToSetUniform key e]))
   \<and> (canvasRef c = Some cv \<and> programInfo c = Some p
      \<longrightarrow> changedUniformsRef (renderLoop time now c) = []
          \<and> draws (frame_calls time now c) = 1
          \<and> last (frame_calls time now c) = DrawArrays
          \<and> frame_console time now c =
              concat (map (apply_error (uniformLocations p) (uniformsRef c)
                             (textureUnits (hook c))) (changedUniformsRef c))
          \<and> (\<forall>k \<in> set (changedUniformsRef c). \<forall>call \<in> set (applied_call (uniformLocations p)
                 (uniformsRef c) (textureUnits (hook c)) k). call \<in> set (frame_calls time now c)))"
proof (intro conjI impI)
  show "apply_changed L U units keys (g, out) =
     (issue (concat (map (applied_call L U units) keys)) g,
      out @ concat (map (apply_error L U units) keys))"
    by (rule apply_changed_eq)
next
  assume "map_of L key = Some loc \<and> uniform_call loc (map_of U key) (map_of units key) = Inl e"
  then show "apply_changed L U units (key # rest) (g, out) =
            apply_changed L U units rest (g, out @ [ErrorFailedToSetUniform key e])"
    by (simp add: apply_uniform_def setUniform_def)
next
  assume a: "canvasRef c = Some cv \<and> programInfo c = Some p"
  then have cv: "canvasRef c = Some cv" and p: "programInfo c = Some p" by simp_all
  let ?B = "set_builtins (options c) (program p) cv time (mousePosition c)"
  let ?R = "concat (map (refresh_of (uniformsRef c)) (textures (hook c)))"
  let ?A = "concat (map (applied_call (uniformLocations p) (uniformsRef c)
                          (textureUnits (hook c))) (changedUniformsRef c))"
  have calls: "gl_calls (renderLoop time now c) =
                 gl_calls c @ [ClearColor, Clear] @ ?B @ ?R @ ?A @ [DrawArrays]"
    and out: "console (hook (renderLoop time now c)) =
       console (hook c)
       @ concat (map (apply_error (uniformLocations p) (uniformsRef c)
                       (textureUnits (hook c))) (changedUniformsRef c))"
    using renderLoop_running [OF cv p, of time now] by blast+
  have fc: "frame_calls time now c = [ClearColor, Clear] @ ?B @ ?R @ ?A @ [DrawArrays]"
    by (simp add: frame_calls_def calls)
  have q: "draws [ClearColor, Clear] = 0" "draws ?B = 0" "draws ?R = 0" "draws ?A = 0"
    "draws [DrawArrays] = 1"
    using set_builtins_quiet [of "options c" "program p" cv time "mousePosition c" "ImageBitmap 0"]
      refresh_quiet [of "uniformsRef c" "textures (hook c)" "ImageBitmap 0"]
      applied_calls_quiet [of "uniformLocations p" "uniformsRef c" "textureUnits (hook c)"
        "changedUniformsRef c" "ImageBitmap 0"]
    by (simp_all add: draws_def)
  show "changedUniformsRef (renderLoop time now c) = []"
    using cv p by (simp add: renderLoop_clears)
  show "draws (frame_calls time now c) = 1"
    unfolding fc draws_append using q by simp
  show "last (frame_calls time now c) = DrawArrays"
    unfolding fc by simp
  show "frame_console time now c =
          concat (map (apply_error (uniformLocations p) (uniformsRef c)
                         (textureUnits (hook c))) (changedUniformsRef c))"
    by (simp add: frame_console_def out)
  show "\<forall>k \<in> set (changedUniformsRef c). \<forall>call \<in> set (applied_call (uniformLocations p)
           (uniformsRef c) (textureUnits (hook c)) k). call \<in> set (frame_calls time now c)"
    unfolding fc by auto
qed

theorem uniform_failure_contained_witness:
  "frame_console 16 17 with_unbound_texture =
     [ErrorFailedToSetUniform ''u_tex'' TextureUnitMustBeProvided]
   \<and> Uniform1f 3 (Arg (Number (Finite 1))) \<in> set (frame_calls 16 17 with_unbound_texture)
   \<and> draws (frame_calls 16 17 with_unbound_texture) = 1
   \<and> changedUniformsRef (renderLoop 16 17 with_unbound_texture) = []"
proof -
  let ?cv = "\<lparr>width = 100, height = 100, clientWidth = 400, clientHeight = 300\<rparr>"
  let ?p = "\<lparr>gl = fresh_gl 8,
             program = [(''u_resolution'', 0), (''u_time'', 1), (''u_mouse'', 2), (''u_a'', 3)],
             uniformLocations = [(''u_tex'', 4), (''u_a'', 3)]\<rparr>"
  have present: "canvasRef with_unbound_texture = Some ?cv \<and> programInfo with_unbound_texture = Some ?p"
    by (simp add: with_unbound_texture_def mounted_def)
  have fields: "changedUniformsRef with_unbound_texture = [''u_tex'', ''u_a'']"
    "uniformsRef with_unbound_texture =
       [(''u_tex'', TextureUniform (HTMLImageElement 2) None),
        (''u_a'', NumericUniform TFloat (Number (Finite 1)))]"
    "textureUnits (hook with_unbound_texture) = []"
    by (simp_all add: with_unbound_texture_def mounted_def no_textures_def)
  show ?thesis
    using uniform_failure_contained [where c = with_unbound_texture and cv = ?cv and p = ?p
        and time = 16 and now = 17] present fields
    by (simp add: apply_error_def applied_call_def uniform_call_def)
qed

lemma to_unsigned_long_nat: "n \<le> 2147483647 \<Longrightarrow> to_unsigned_long (Finite (of_nat n)) = n"
proof -
  assume n: "n \<le> 2147483647"
  have "trunc (of_nat n) = int n" by (simp add: trunc_def)
  moreover have "int n mod 2 ^ 32 = int n" using n by simp
  ultimately show ?thesis by simp
qed

lemma set_dimension_nat:
  assumes "n \<le> 2147483647"
  shows "set_dimension d (Finite (of_nat n)) = n"
  unfolding set_dimension_def Let_def to_unsigned_long_nat [OF assms] using assms by simp

lemma strict_eq_nat: "strict_eq (Finite (of_nat m)) (Finite (of_nat n)) \<longleftrightarrow> m = n"
  by (simp add: strict_eq_def)

text \<open>
  C7, as amended. With the canvas and the context there, the target is \<^verbatim>\<open>Math.floor\<close> of
  the double product of the client size and the pixel ratio, per axis. When it is a whole
  number from 0 to \<open>2^31 - 1\<close> on both axes: if the target equals the backing store,
  nothing changes; otherwise the backing store is set to the target, one viewport call
  \<open>(0, 0, width, height)\<close> is issued and, when a render function is registered, one frame
  is rendered at once; when none is registered, no frame is rendered. A pixel ratio of 0
  gives the target 0 by 0.
\<close>

theorem handleResize_protocol:
  assumes cv: "canvasRef c = Some cv" and p: "programInfo c = Some p"
    and dw: "Math_floor (double_times (Finite (of_nat (clientWidth cv))) (pixelRatio c)) =
               Finite (of_nat dw)"
    and dh: "Math_floor (double_times (Finite (of_nat (clientHeight cv))) (pixelRatio c)) =
               Finite (of_nat dh)"
    and range: "dw \<le> 2147483647 \<and> dh \<le> 2147483647"
  shows "(width cv = dw \<and> height cv = dh \<longrightarrow> handleResize now now' c = c)
         \<and> (width cv \<noteq> dw \<or> height cv \<noteq> dh \<longrightarrow>
              canvasRef (handleResize now now' c) = Some (cv\<lparr>width := dw, height := dh\<rparr>)
              \<and> viewports (gl_calls (handleResize now now' c)) =
                  viewports (gl_calls c)
                  @ [Viewport (Finite 0) (Finite 0) (Finite (of_nat dw)) (Finite (of_nat dh))]
              \<and> draws (gl_calls (handleResize now now' c)) =
                  draws (gl_calls c) + (if renderFnRef c then 1 else 0)
              \<and> handleResize now now' c =
                  (if renderFnRef c
                   then renderLoop now now'
                          (c\<lparr>canvasRef := Some (cv\<lparr>width := dw, height := dh\<rparr>),
                             programInfo :=
                               Some (p\<lparr>gl := issue [Viewport (Finite 0) (Finite 0)
                                         (Finite (of_nat dw)) (Finite (of_nat dh))] (gl p)\<rparr>)\<rparr>)
                   else c\<lparr>canvasRef := Some (cv\<lparr>width := dw, height := dh\<rparr>),
                          programInfo :=
                            Some (p\<lparr>gl := issue [Viewport (Finite 0) (Finite 0)
                                      (Finite (of_nat dw)) (Finite (of_nat dh))] (gl p)\<rparr>)\<rparr>))
         \<and> (pixelRatio c = Finite 0 \<longrightarrow> dw = 0 \<and> dh = 0)"
proof (intro conjI impI)
  assume "width cv = dw \<and> height cv = dh"
  then show "handleResize now now' c = c"
    using cv p dw dh by (simp add: handleResize_def Let_def strict_eq_nat)
next
  assume "pixelRatio c = Finite 0"
  then show "dw = 0" and "dh = 0" using dw dh by (simp_all add: round_double_0)
next
  assume ne: "width cv \<noteq> dw \<or> height cv \<noteq> dh"
  let ?v = "Viewport (Finite 0) (Finite 0) (Finite (of_nat dw)) (Finite (of_nat dh))"
  let ?c = "c\<lparr>canvasRef := Some (cv\<lparr>width := dw, height := dh\<rparr>),
              programInfo := Some (p\<lparr>gl := issue [?v] (gl p)\<rparr>)\<rparr>"
  have eq: "handleResize now now' c = (if renderFnRef c then renderLoop now now' ?c else ?c)"
    using cv p ne range
    by (auto simp: handleResize_def Let_def dw dh strict_eq_nat set_dimension_nat)
  have present: "canvasRef ?c \<noteq> None" "programInfo ?c \<noteq> None" by simp_all
  have calls: "gl_calls ?c = gl_calls c @ [?v]"
    using p by (simp add: gl_calls_def calls_issue)
  have v: "viewports (gl_calls ?c) = viewports (gl_calls c) @ [?v]"
    unfolding calls viewports_append by (simp add: viewports_def)
  have d: "draws (gl_calls ?c) = draws (gl_calls c)"
    unfolding calls draws_append by (simp add: draws_def)
  show "handleResize now now' c =
          (if renderFnRef c
           then renderLoop now now'
                  (c\<lparr>canvasRef := Some (cv\<lparr>width := dw, height := dh\<rparr>),
                     programInfo :=
                       Some (p\<lparr>gl := issue [Viewport (Finite 0) (Finite 0)
                                 (Finite (of_nat dw)) (Finite (of_nat dh))] (gl p)\<rparr>)\<rparr>)
           else c\<lparr>canvasRef := Some (cv\<lparr>width := dw, height := dh\<rparr>),
                  programInfo :=
                    Some (p\<lparr>gl := issue [Viewport (Finite 0) (Finite 0)
                              (Finite (of_nat dw)) (Finite (of_nat dh))] (gl p)\<rparr>)\<rparr>)"
    by (rule eq)
  show "canvasRef (handleResize now now' c) = Some (cv\<lparr>width := dw, height := dh\<rparr>)"
    using renderLoop_keeps [of now now' ?c] by (simp add: eq)
  show "viewports (gl_calls (handleResize now now' c)) = viewports (gl_calls c) @ [?v]"
    using renderLoop_draws [OF present, of now now'] v by (simp add: eq)
  show "draws (gl_calls (handleResize now now' c)) =
          draws (gl_calls c) + (if renderFnRef c then 1 else 0)"
    using renderLoop_draws [OF present, of now now'] d by (simp add: eq)
qed

text \<open>An instance with a pixel ratio of 1.2, the double \<open>5404319552844595 / 2^52\<close>.\<close>

theorem handleResize_protocol_witness:
  "canvasRef (handleResize 1000 1001
       ((mounted True)\<lparr>pixelRatio := Finite (5404319552844595 / 2 ^ 52)\<rparr>)) =
     Some \<lparr>width = 480, height = 360, clientWidth = 400, clientHeight = 300\<rparr>
   \<and> viewports (gl_calls (handleResize 1000 1001
       ((mounted True)\<lparr>pixelRatio := Finite (5404319552844595 / 2 ^ 52)\<rparr>))) =
     [Viewport (Finite 0) (Finite 0) (Finite 480) (Finite 360)]
   \<and> draws (gl_calls (handleResize 1000 1001
       ((mounted True)\<lparr>pixelRatio := Finite (5404319552844595 / 2 ^ 52)\<rparr>))) = 1"
proof -
  let ?c = "(mounted True)\<lparr>pixelRatio := Finite (5404319552844595 / 2 ^ 52)\<rparr>"
  let ?cv = "\<lparr>width = 100, height = 100, clientWidth = 400, clientHeight = 300\<rparr>"
  let ?p = "\<lparr>gl = fresh_gl 8,
             program = [(''u_resolution'', 0), (''u_time'', 1), (''u_mouse'', 2), (''u_a'', 3)],
             uniformLocations = [(''u_a'', 3)]\<rparr>"
  have cv: "canvasRef ?c = Some ?cv" and p: "programInfo ?c = Some ?p"
    by (simp_all add: mounted_def)
  have dw: "Math_floor (double_times (Finite (of_nat (clientWidth ?cv))) (pixelRatio ?c)) =
              Finite (of_nat 480)"
    using times_400_1_2 by simp
  have dh: "Math_floor (double_times (Finite (of_nat (clientHeight ?cv))) (pixelRatio ?c)) =
              Finite (of_nat 360)"
    using times_300_1_2 by simp
  have range: "(480::nat) \<le> 2147483647 \<and> (360::nat) \<le> 2147483647" by simp
  have before: "gl_calls ?c = []" "renderFnRef ?c"
    by (simp_all add: mounted_def gl_calls_def fresh_gl_def)
  have ne: "width ?cv \<noteq> 480 \<or> height ?cv \<noteq> 360" by simp
  from handleResize_protocol [OF cv p dw dh range, of 1000 1001] ne
  have "canvasRef (handleResize 1000 1001 ?c) = Some (?cv\<lparr>width := 480, height := 360\<rparr>)"
    and "viewports (gl_calls (handleResize 1000 1001 ?c)) =
          viewports (gl_calls ?c)
          @ [Viewport (Finite 0) (Finite 0) (Finite (of_nat 480)) (Finite (of_nat 360))]"
    and "draws (gl_calls (handleResize 1000 1001 ?c)) =
          draws (gl_calls ?c) + (if renderFnRef ?c then 1 else 0)"
    by blast+
  then show ?thesis
    using before by (simp add: viewports_def draws_def)
qed

text \<open>
  C7, as stated, fails. With no render function registered, the handler sets the backing
  store and the viewport and renders no frame. With a pixel ratio of -1 the target is -400
  by -300, which the canvas does not take: its backing store becomes 300 by 150.
\<close>

theorem handleResize_no_frame_counterexample:
  "canvasRef (handleResize 1000 1001 (mounted False)) =
     Some \<lparr>width = 800, height = 600, clientWidth = 400, clientHeight = 300\<rparr>
   \<and> gl_calls (handleResize 1000 1001 (mounted False)) =
       [Viewport (Finite 0) (Finite 0) (Finite 800) (Finite 600)]
   \<and> draws (gl_calls (handleResize 1000 1001 (mounted False))) = 0
   \<and> canvasRef (handleResize 1000 1001 ((mounted False)\<lparr>pixelRatio := Finite (- 1)\<rparr>)) =
       Some \<lparr>width = 300, height = 150, clientWidth = 400, clientHeight = 300\<rparr>
   \<and> gl_calls (handleResize 1000 1001 ((mounted False)\<lparr>pixelRatio := Finite (- 1)\<rparr>)) =
       [Viewport (Finite 0) (Finite 0) (Finite (- 400)) (Finite (- 300))]"
  by (simp add: handleResize_def mounted_def gl_calls_def fresh_gl_def issue_def draws_def
      Let_def round_double_800 round_double_600 round_double_minus_400 round_double_minus_300
      strict_eq_def set_dimension_def trunc_def)

end
